theory Spec2Isabelle
  imports Main "HOL-Library.Word"
begin

unbundle bit_operations_syntax

section \<open>Data model\<close>

text \<open>
  A Python \<open>str\<close> is a sequence of Unicode code points and \<open>len\<close> counts code points,
  so a string is a list of code-point numbers. A \<open>bytes\<close> object is a list of 8-bit words.
  A text field whose value is \<open>None\<close> is falsy exactly as the empty string is, in every
  function embedded here, so a field value is a plain string.
\<close>

type_synonym str = "nat list"
type_synonym byte = "8 word"
type_synonym bytes = "byte list"

datatype py_error =
    UnicodeEncodeError
  | UnicodeDecodeError
  | ValueError
  | TypeError
  | OSError
  | KeyError
  | OverflowError

section \<open>Character classes of the Python runtime\<close>

text \<open>
  \<open>str.strip()\<close> without arguments removes the characters for which
  \<open>str.isspace\<close> holds.
\<close>

definition py_isspace :: "nat \<Rightarrow> bool" where
  "py_isspace c \<longleftrightarrow>
     (9 \<le> c \<and> c \<le> 13) \<or> (28 \<le> c \<and> c \<le> 32) \<or> c = 133 \<or> c = 160 \<or> c = 5760 \<or>
     (8192 \<le> c \<and> c \<le> 8202) \<or> c = 8232 \<or> c = 8233 \<or> c = 8239 \<or> c = 8287 \<or> c = 12288"

definition strip :: "str \<Rightarrow> str" where
  "strip s = rev (dropWhile py_isspace (rev (dropWhile py_isspace s)))"

text \<open>
  In a \<open>str\<close> pattern \<open>\d\<close> matches the Unicode decimal digits (general category Nd).
  The table is the one of Unicode 14: every run has ten digits, but for the mathematical
  digits U+1D7CE to U+1D7FF.
\<close>

definition nd_run_starts :: "nat list" where
  "nd_run_starts =
     [0x30, 0x660, 0x6F0, 0x7C0, 0x966, 0x9E6, 0xA66, 0xAE6, 0xB66, 0xBE6, 0xC66, 0xCE6,
      0xD66, 0xDE6, 0xE50, 0xED0, 0xF20, 0x1040, 0x1090, 0x17E0, 0x1810, 0x1946, 0x19D0,
      0x1A80, 0x1A90, 0x1B50, 0x1BB0, 0x1C40, 0x1C50, 0xA620, 0xA8D0, 0xA900, 0xA9D0,
      0xA9F0, 0xAA50, 0xABF0, 0xFF10, 0x104A0, 0x10D30, 0x11066, 0x110F0, 0x11136,
      0x111D0, 0x112F0, 0x11450, 0x114D0, 0x11650, 0x116C0, 0x11730, 0x118E0, 0x11950,
      0x11C50, 0x11D50, 0x11DA0, 0x16A60, 0x16AC0, 0x16B50, 0x1E140, 0x1E2F0, 0x1E950,
      0x1FBF0]"

definition re_digit :: "nat \<Rightarrow> bool" where
  "re_digit c \<longleftrightarrow>
     list_ex (\<lambda>a. a \<le> c \<and> c < a + 10) nd_run_starts \<or> (0x1D7CE \<le> c \<and> c \<le> 0x1D7FF)"

definition hex_digit :: "nat \<Rightarrow> bool" where
  "hex_digit c \<longleftrightarrow> (48 \<le> c \<and> c \<le> 57) \<or> (97 \<le> c \<and> c \<le> 102) \<or> (65 \<le> c \<and> c \<le> 70)"

text \<open>
  Without \<open>re.MULTILINE\<close>, \<open>$\<close> matches at the end of the string and also just
  before a newline that is the last character of the string.
\<close>

definition at_dollar :: "str \<Rightarrow> bool" where
  "at_dollar rest \<longleftrightarrow> rest = [] \<or> rest = [10]"

section \<open>Input validation\<close>

text \<open>\<open>re.match(r'^\d+$', s) is not None\<close>: a greedy, non-empty run of digits, then \<open>$\<close>.\<close>

definition match_digits :: "str \<Rightarrow> bool" where
  "match_digits s \<longleftrightarrow> takeWhile re_digit s \<noteq> [] \<and> at_dollar (dropWhile re_digit s)"

text \<open>
  \<open>re.match(r'^#(?:[0-9a-fA-F]{3}){1,2}$', color) is not None\<close>: the group is tried twice
  first and, when \<open>$\<close> then fails, once.
\<close>

definition hex_group :: "nat \<Rightarrow> str \<Rightarrow> bool" where
  "hex_group n s \<longleftrightarrow> length (take n s) = n \<and> list_all hex_digit (take n s) \<and> at_dollar (drop n s)"

definition validate_color :: "str \<Rightarrow> bool" where
  "validate_color color =
     (case color of
        [] \<Rightarrow> False
      | c # rest \<Rightarrow> c = 35 \<and> (hex_group 6 rest \<or> hex_group 3 rest))"

datatype validation_error = InvalidName | InvalidId | InvalidDepartment

record form =
  employee_name :: str
  employee_id :: str
  department :: str
  additional_info :: str

text \<open>
  \<open>validate_inputs\<close> returns \<open>(False, message)\<close> at the first rule that fails; the three
  messages are told apart by the rule that produced them.
\<close>

definition validate_inputs :: "form \<Rightarrow> validation_error + unit" where
  "validate_inputs f =
     (if employee_name f = [] \<or> length (strip (employee_name f)) < 2 then Inl InvalidName
      else if employee_id f = [] \<or> \<not> match_digits (employee_id f) then Inl InvalidId
      else if department f = [] \<or> length (strip (department f)) < 2 then Inl InvalidDepartment
      else Inr ())"

section \<open>Text and byte codecs of the runtime\<close>

text \<open>
  \<open>str.encode('utf-8')\<close> is strict: a surrogate code point raises
  \<open>UnicodeEncodeError\<close>. A well-formed text has Unicode scalar values only.
\<close>

definition is_scalar :: "nat \<Rightarrow> bool" where
  "is_scalar c \<longleftrightarrow> c < 0xD800 \<or> (0xDFFF < c \<and> c < 0x110000)"

definition unicode_text :: "str \<Rightarrow> bool" where
  "unicode_text s \<longleftrightarrow> list_all is_scalar s"

definition utf8_char :: "nat \<Rightarrow> bytes" where
  "utf8_char c =
     (if c < 0x80 then [of_nat c]
      else if c < 0x800 then [of_nat (0xC0 + c div 64), of_nat (0x80 + c mod 64)]
      else if c < 0x10000 then
        [of_nat (0xE0 + c div 4096), of_nat (0x80 + c div 64 mod 64), of_nat (0x80 + c mod 64)]
      else
        [of_nat (0xF0 + c div 262144), of_nat (0x80 + c div 4096 mod 64),
         of_nat (0x80 + c div 64 mod 64), of_nat (0x80 + c mod 64)])"

fun encode_utf8 :: "str \<Rightarrow> py_error + bytes" where
  "encode_utf8 [] = Inr []"
| "encode_utf8 (c # cs) =
     (if \<not> is_scalar c then Inl UnicodeEncodeError
      else case encode_utf8 cs of Inl e \<Rightarrow> Inl e | Inr bs \<Rightarrow> Inr (utf8_char c @ bs))"

text \<open>\<open>bytes.decode('utf-8')\<close>, strict as well.\<close>

definition is_cont :: "byte \<Rightarrow> bool" where
  "is_cont b \<longleftrightarrow> 0x80 \<le> unat b \<and> unat b < 0xC0"

definition cont_bits :: "byte \<Rightarrow> nat" where
  "cont_bits b = unat b - 0x80"

definition cons_char :: "nat \<Rightarrow> py_error + str \<Rightarrow> py_error + str" where
  "cons_char c r = (case r of Inl e \<Rightarrow> Inl e | Inr s \<Rightarrow> Inr (c # s))"

fun decode_utf8 :: "bytes \<Rightarrow> py_error + str" where
  "decode_utf8 [] = Inr []"
| "decode_utf8 (b # bs) =
     (if unat b < 0x80 then cons_char (unat b) (decode_utf8 bs)
      else if unat b < 0xC0 then Inl UnicodeDecodeError
      else if unat b < 0xE0 then
        (case bs of
           b1 # r \<Rightarrow>
             (let v = (unat b - 0xC0) * 64 + cont_bits b1
              in if is_cont b1 \<and> 0x80 \<le> v then cons_char v (decode_utf8 r)
                 else Inl UnicodeDecodeError)
         | _ \<Rightarrow> Inl UnicodeDecodeError)
      else if unat b < 0xF0 then
        (case bs of
           b1 # b2 # r \<Rightarrow>
             (let v = (unat b - 0xE0) * 4096 + cont_bits b1 * 64 + cont_bits b2
              in if is_cont b1 \<and> is_cont b2 \<and> 0x800 \<le> v \<and> is_scalar v
                 then cons_char v (decode_utf8 r)
                 else Inl UnicodeDecodeError)
         | _ \<Rightarrow> Inl UnicodeDecodeError)
      else
        (case bs of
           b1 # b2 # b3 # r \<Rightarrow>
             (let v = (unat b - 0xF0) * 262144 + cont_bits b1 * 4096 + cont_bits b2 * 64
                      + cont_bits b3
              in if unat b < 0xF8 \<and> is_cont b1 \<and> is_cont b2 \<and> is_cont b3 \<and> 0x10000 \<le> v
                    \<and> is_scalar v
                 then cons_char v (decode_utf8 r)
                 else Inl UnicodeDecodeError)
         | _ \<Rightarrow> Inl UnicodeDecodeError))"

text \<open>
  \<open>base64.b64encode\<close>: three bytes give four characters of the standard alphabet; a
  last group of one or two bytes is completed with \<open>=\<close>.
\<close>

definition b64_char :: "nat \<Rightarrow> byte" where
  "b64_char n =
     (if n < 26 then of_nat (65 + n)
      else if n < 52 then of_nat (97 + (n - 26))
      else if n < 62 then of_nat (48 + (n - 52))
      else if n = 62 then 43
      else 47)"

definition sextet0 :: "byte \<Rightarrow> nat" where
  "sextet0 a = unat a div 4"

definition sextet1 :: "byte \<Rightarrow> byte \<Rightarrow> nat" where
  "sextet1 a b = unat a mod 4 * 16 + unat b div 16"

definition sextet2 :: "byte \<Rightarrow> byte \<Rightarrow> nat" where
  "sextet2 b c = unat b mod 16 * 4 + unat c div 64"

definition sextet3 :: "byte \<Rightarrow> nat" where
  "sextet3 c = unat c mod 64"

fun b64encode :: "bytes \<Rightarrow> bytes" where
  "b64encode [] = []"
| "b64encode [a] = [b64_char (sextet0 a), b64_char (sextet1 a 0), 61, 61]"
| "b64encode [a, b] =
     [b64_char (sextet0 a), b64_char (sextet1 a b), b64_char (sextet2 b 0), 61]"
| "b64encode (a # b # c # rest) =
     [b64_char (sextet0 a), b64_char (sextet1 a b), b64_char (sextet2 b c),
      b64_char (sextet3 c)]
     @ b64encode rest"

text \<open>
  A strict decoder of the same alphabet, for the inverse operation: it accepts the output
  of \<open>b64encode\<close> and nothing else.
\<close>

definition b64_val :: "byte \<Rightarrow> nat option" where
  "b64_val b =
     (let n = unat b in
      if 65 \<le> n \<and> n \<le> 90 then Some (n - 65)
      else if 97 \<le> n \<and> n \<le> 122 then Some (n - 97 + 26)
      else if 48 \<le> n \<and> n \<le> 57 then Some (n - 48 + 52)
      else if n = 43 then Some 62
      else if n = 47 then Some 63
      else None)"

definition octet0 :: "nat \<Rightarrow> nat \<Rightarrow> byte" where
  "octet0 x y = of_nat (x * 4 + y div 16)"

definition octet1 :: "nat \<Rightarrow> nat \<Rightarrow> byte" where
  "octet1 y z = of_nat (y mod 16 * 16 + z div 4)"

definition octet2 :: "nat \<Rightarrow> nat \<Rightarrow> byte" where
  "octet2 z w = of_nat (z mod 4 * 64 + w)"

fun b64decode :: "bytes \<Rightarrow> py_error + bytes" where
  "b64decode [] = Inr []"
| "b64decode (a # b # c # d # rest) =
     (if c = 61 \<and> d = 61 \<and> rest = [] then
        (case (b64_val a, b64_val b) of
           (Some x, Some y) \<Rightarrow> Inr [octet0 x y]
         | _ \<Rightarrow> Inl ValueError)
      else if d = 61 \<and> rest = [] then
        (case (b64_val a, b64_val b, b64_val c) of
           (Some x, Some y, Some z) \<Rightarrow> Inr [octet0 x y, octet1 y z]
         | _ \<Rightarrow> Inl ValueError)
      else
        (case (b64_val a, b64_val b, b64_val c, b64_val d) of
           (Some x, Some y, Some z, Some w) \<Rightarrow>
             (case b64decode rest of
                Inl e \<Rightarrow> Inl e
              | Inr bs \<Rightarrow> Inr ([octet0 x y, octet1 y z, octet2 z w] @ bs))
         | _ \<Rightarrow> Inl ValueError))"
| "b64decode _ = Inl ValueError"

text \<open>
  \<open>base64.b64decode\<close> as the program calls it, without validation: a character outside
  the alphabet is skipped, an \<open>=\<close> that completes a group of four ends the input, any other
  \<open>=\<close> is skipped, and input that ends inside a group raises. \<open>quad_pos\<close> counts the
  characters of the group read so far, \<open>prev\<close> is the value of the last of them and
  \<open>pads\<close> counts the \<open>=\<close> seen since.
\<close>

fun a2b_base64 :: "nat \<Rightarrow> nat \<Rightarrow> nat \<Rightarrow> bytes \<Rightarrow> py_error + bytes" where
  "a2b_base64 quad_pos prev pads [] = (if quad_pos = 0 then Inr [] else Inl ValueError)"
| "a2b_base64 quad_pos prev pads (c # cs) =
     (if c = 61 then
        (if 2 \<le> quad_pos then
           (if 4 \<le> quad_pos + (pads + 1) then Inr []
            else a2b_base64 quad_pos prev (pads + 1) cs)
         else a2b_base64 quad_pos prev pads cs)
      else
        (case b64_val c of
           None \<Rightarrow> a2b_base64 quad_pos prev pads cs
         | Some v \<Rightarrow>
             if quad_pos = 0 then a2b_base64 1 v 0 cs
             else
               (case a2b_base64 ((quad_pos + 1) mod 4) v 0 cs of
                  Inl e \<Rightarrow> Inl e
                | Inr bs \<Rightarrow>
                    Inr ((if quad_pos = 1 then octet0 prev v
                          else if quad_pos = 2 then octet1 prev v
                          else octet2 prev v) # bs))))"

text \<open>A \<open>str\<close> argument is encoded as ASCII first, which raises for any other character.\<close>

definition b64decode_str :: "str \<Rightarrow> py_error + bytes" where
  "b64decode_str s =
     (if list_all (\<lambda>c. c < 128) s then a2b_base64 0 0 0 (map of_nat s) else Inl ValueError)"

text \<open>
  PKCS#7 padding of \<open>Crypto.Util.Padding\<close>: \<open>pad\<close> always adds between one byte and a
  whole block; \<open>unpad\<close> checks the length, the last byte and the run of padding bytes.
\<close>

definition pad :: "bytes \<Rightarrow> nat \<Rightarrow> bytes" where
  "pad data_to_pad bsize =
     (let padding_len = bsize - length data_to_pad mod bsize
      in data_to_pad @ replicate padding_len (of_nat padding_len))"

definition unpad :: "bytes \<Rightarrow> nat \<Rightarrow> py_error + bytes" where
  "unpad padded_data bsize =
     (let pdata_len = length padded_data in
      if pdata_len = 0 then Inl ValueError
      else if pdata_len mod bsize \<noteq> 0 then Inl ValueError
      else
        (let padding_len = unat (last padded_data) in
         if padding_len < 1 \<or> padding_len > min bsize pdata_len then Inl ValueError
         else if drop (pdata_len - padding_len) padded_data
                 \<noteq> replicate padding_len (of_nat padding_len)
         then Inl ValueError
         else Inr (take (pdata_len - padding_len) padded_data)))"

section \<open>Encryption\<close>

text \<open>
  The AES block transformation belongs to the cryptographic library. It is a parameter of
  the model: a pair of functions from a key and a 16-byte block to a 16-byte block. The
  chaining, the padding, the random initialisation vector and the envelope are the
  program's and are modelled in full.
\<close>

record block_cipher =
  encrypt_block :: "bytes \<Rightarrow> bytes \<Rightarrow> bytes"
  decrypt_block :: "bytes \<Rightarrow> bytes \<Rightarrow> bytes"

definition block_size :: nat where
  "block_size = 16"

text \<open>
  The random source is an unbounded tape of bytes; \<open>get_random_bytes n\<close> takes the next
  \<open>n\<close> of them.
\<close>

type_synonym rng = "nat \<Rightarrow> byte"

definition get_random_bytes :: "nat \<Rightarrow> rng \<Rightarrow> bytes \<times> rng" where
  "get_random_bytes n r = (map r [0..<n], \<lambda>i. r (i + n))"

definition xor_bytes :: "bytes \<Rightarrow> bytes \<Rightarrow> bytes" where
  "xor_bytes a b = map (\<lambda>(x, y). x XOR y) (zip a b)"

function cbc_encrypt :: "(bytes \<Rightarrow> bytes) \<Rightarrow> bytes \<Rightarrow> bytes \<Rightarrow> bytes" where
  "cbc_encrypt E prev plaintext =
     (if plaintext = [] then []
      else E (xor_bytes (take 16 plaintext) prev)
           @ cbc_encrypt E (E (xor_bytes (take 16 plaintext) prev)) (drop 16 plaintext))"
  by pat_completeness auto
termination
  by (relation "measure (\<lambda>(E, prev, plaintext). length plaintext)") auto

function cbc_decrypt :: "(bytes \<Rightarrow> bytes) \<Rightarrow> bytes \<Rightarrow> bytes \<Rightarrow> bytes" where
  "cbc_decrypt D prev ciphertext =
     (if ciphertext = [] then []
      else xor_bytes (D (take 16 ciphertext)) prev
           @ cbc_decrypt D (take 16 ciphertext) (drop 16 ciphertext))"
  by pat_completeness auto
termination
  by (relation "measure (\<lambda>(D, prev, ciphertext). length ciphertext)") auto

text \<open>
  \<open>encrypt_data\<close>. \<open>AES.new\<close> refuses a key that is not 16, 24 or 32 bytes long and draws
  the initialisation vector; the text is encoded after that. The result is the pair of
  the outcome and the random source left.
\<close>

definition encrypt_data :: "block_cipher \<Rightarrow> bytes \<Rightarrow> rng \<Rightarrow> str \<Rightarrow> (py_error + str) \<times> rng" where
  "encrypt_data aes KEY r data =
     (if length KEY \<noteq> 16 \<and> length KEY \<noteq> 24 \<and> length KEY \<noteq> 32 then (Inl ValueError, r)
      else
        (let (iv, r') = get_random_bytes 16 r in
         case encode_utf8 data of
           Inl e \<Rightarrow> (Inl e, r')
         | Inr raw \<Rightarrow>
             (let ct_bytes = cbc_encrypt (encrypt_block aes KEY) iv (pad raw block_size) in
              case decode_utf8 (b64encode iv) of
                Inl e \<Rightarrow> (Inl e, r')
              | Inr iv_text \<Rightarrow>
                  (case decode_utf8 (b64encode ct_bytes) of
                     Inl e \<Rightarrow> (Inl e, r')
                   | Inr ct \<Rightarrow> (Inr (iv_text @ [58] @ ct), r')))))"

text \<open>\<open>str.split(sep)\<close> for a one-character separator.\<close>

fun split_on :: "nat \<Rightarrow> str \<Rightarrow> str list" where
  "split_on sep [] = [[]]"
| "split_on sep (c # cs) =
     (if c = sep then [] # split_on sep cs
      else case split_on sep cs of
             [] \<Rightarrow> [[c]]
           | h # t \<Rightarrow> (c # h) # t)"

text \<open>
  Modelled from the spec: the inverse decrypt operation, which the program does not
  contain. It parses the two base64 fields of the envelope, decrypts in CBC mode under
  the same key and the envelope's initialisation vector, removes the padding and decodes
  the text.
\<close>

definition b64decode_text :: "str \<Rightarrow> py_error + bytes" where
  "b64decode_text s = (if list_all (\<lambda>c. c < 128) s then b64decode (map of_nat s) else Inl ValueError)"

definition decrypt_data :: "block_cipher \<Rightarrow> bytes \<Rightarrow> str \<Rightarrow> py_error + str" where
  "decrypt_data aes KEY envelope =
     (case split_on 58 envelope of
        [iv_text, ct] \<Rightarrow>
          (case b64decode_text iv_text of
             Inl e \<Rightarrow> Inl e
           | Inr iv \<Rightarrow>
               (case b64decode_text ct of
                  Inl e \<Rightarrow> Inl e
                | Inr ct_bytes \<Rightarrow>
                    if length iv \<noteq> 16 \<or> length ct_bytes mod 16 \<noteq> 0 then Inl ValueError
                    else
                      (case unpad (cbc_decrypt (decrypt_block aes KEY) iv ct_bytes) block_size of
                         Inl e \<Rightarrow> Inl e
                       | Inr raw \<Rightarrow> decode_utf8 raw)))
      | _ \<Rightarrow> Inl ValueError)"

text \<open>
  What the program needs of the block transformation: under the key, it maps 16-byte
  blocks to 16-byte blocks and \<open>decrypt_block\<close> undoes \<open>encrypt_block\<close>.
\<close>

definition cipher_ok :: "block_cipher \<Rightarrow> bytes \<Rightarrow> bool" where
  "cipher_ok aes k \<longleftrightarrow>
     (\<forall>b. length b = 16 \<longrightarrow>
        length (encrypt_block aes k b) = 16 \<and> decrypt_block aes k (encrypt_block aes k b) = b)"

text \<open>
  A stand-in block transformation (exclusive or with the first 16 bytes of the key), to
  run the model on concrete inputs.
\<close>

definition xor_cipher :: block_cipher where
  "xor_cipher = \<lparr>encrypt_block = (\<lambda>k b. xor_bytes b (take 16 k)),
                  decrypt_block = (\<lambda>k b. xor_bytes b (take 16 k))\<rparr>"

text \<open>The characters \<open>b64encode\<close> can produce: ASCII, and never the colon.\<close>

definition b64_out :: "byte \<Rightarrow> bool" where
  "b64_out b \<longleftrightarrow> unat b < 128 \<and> unat b \<noteq> 58"


section \<open>Serialisation of the employee record\<close>

text \<open>
  The four labels of \<open>collect_employee_data\<close>, as code points: the Arabic words for
  name, employee number, department and additional information, each followed by a colon
  and a space.
\<close>

definition name_label :: str where
  "name_label = [1575, 1604, 1575, 1587, 1605, 58, 32]"

definition id_label :: str where
  "id_label = [1575, 1604, 1585, 1602, 1605, 32, 1575, 1604, 1608, 1592, 1610, 1601, 1610, 58, 32]"

definition department_label :: str where
  "department_label = [1575, 1604, 1602, 1587, 1605, 58, 32]"

definition notes_label :: str where
  "notes_label = [1605, 1593, 1604, 1608, 1605, 1575, 1578, 32, 1573, 1590, 1575, 1601, 1610, 1577, 58, 32]"

definition collect_employee_data :: "form \<Rightarrow> str" where
  "collect_employee_data f =
     (let data = name_label @ employee_name f @ [10] @ id_label @ employee_id f @ [10]
                 @ department_label @ department f
      in if additional_info f \<noteq> [] then data @ [10] @ notes_label @ additional_info f
         else data)"

text \<open>
  Modelled from the spec: the parser of the serialised record, which the program does not
  contain. It splits the text at newlines and reads the three or four fixed labelled
  lines, in order.
\<close>

definition strip_label :: "str \<Rightarrow> str \<Rightarrow> str option" where
  "strip_label label line =
     (if take (length label) line = label then Some (drop (length label) line) else None)"

definition parse_fields :: "str \<Rightarrow> str \<Rightarrow> str \<Rightarrow> str \<Rightarrow> form option" where
  "parse_fields l1 l2 l3 notes =
     (case strip_label name_label l1 of
        None \<Rightarrow> None
      | Some n \<Rightarrow>
          (case strip_label id_label l2 of
             None \<Rightarrow> None
           | Some i \<Rightarrow>
               (case strip_label department_label l3 of
                  None \<Rightarrow> None
                | Some d \<Rightarrow>
                    Some \<lparr>employee_name = n, employee_id = i, department = d,
                          additional_info = notes\<rparr>)))"

definition parse_employee_data :: "str \<Rightarrow> form option" where
  "parse_employee_data data =
     (case split_on 10 data of
        [l1, l2, l3] \<Rightarrow> parse_fields l1 l2 l3 []
      | [l1, l2, l3, l4] \<Rightarrow>
          (case strip_label notes_label l4 of
             None \<Rightarrow> None
           | Some notes \<Rightarrow> if notes = [] then None else parse_fields l1 l2 l3 notes)
      | _ \<Rightarrow> None)"

section \<open>Python values and dictionaries\<close>

text \<open>
  The values a settings dictionary can hold: what the program stores itself (strings and a
  boolean) and whatever \<open>json.load\<close> returns. A \<open>float\<close> is a mantissa and a binary
  exponent; of a float the program only ever tests whether it is zero. A dictionary keeps
  its keys in insertion order and is an association list with distinct keys.
\<close>

datatype pyval =
    PNone
  | PBool bool
  | PInt int
  | PFloat int int
  | PStr str
  | PList "pyval list"
  | PDict "(str \<times> pyval) list"

type_synonym dict = "(str \<times> pyval) list"

definition ascii :: "string \<Rightarrow> str" where
  "ascii s = map of_char s"

definition truthy :: "pyval \<Rightarrow> bool" where
  "truthy v =
     (case v of
        PNone \<Rightarrow> False
      | PBool b \<Rightarrow> b
      | PInt n \<Rightarrow> n \<noteq> 0
      | PFloat m e \<Rightarrow> m \<noteq> 0
      | PStr s \<Rightarrow> s \<noteq> []
      | PList xs \<Rightarrow> xs \<noteq> []
      | PDict kvs \<Rightarrow> kvs \<noteq> [])"

definition dict_get :: "dict \<Rightarrow> str \<Rightarrow> pyval option" where
  "dict_get d k = map_of d k"

text \<open>\<open>d.get(k, dflt)\<close>.\<close>

definition dict_get_default :: "dict \<Rightarrow> str \<Rightarrow> pyval \<Rightarrow> pyval" where
  "dict_get_default d k dflt = (case dict_get d k of None \<Rightarrow> dflt | Some v \<Rightarrow> v)"

text \<open>\<open>d[k] = v\<close>: an existing key keeps its place, a new key goes last.\<close>

fun dict_set :: "dict \<Rightarrow> str \<Rightarrow> pyval \<Rightarrow> dict" where
  "dict_set [] k v = [(k, v)]"
| "dict_set ((k', v') # d) k v =
     (if k' = k then (k, v) # d else (k', v') # dict_set d k v)"

text \<open>\<open>d.update(other)\<close>, and \<open>json.load\<close> building a dictionary from the pairs of an object.\<close>

definition dict_update :: "dict \<Rightarrow> (str \<times> pyval) list \<Rightarrow> dict" where
  "dict_update d other = foldl (\<lambda>acc kv. dict_set acc (fst kv) (snd kv)) d other"

section \<open>The file system\<close>

text \<open>
  The part of the file system the program touches: the key file and the settings file in
  the working directory, ordinary files by their path, and directories. What the
  operating system decides (whether a file opens, whether a write goes through) is an
  input of the model. \<open>WriteFails n\<close>: the file was opened, hence created or truncated,
  and the write failed after \<open>n\<close> bytes. \<open>path_exists\<close> is \<open>os.path.exists\<close> on a path and
  \<open>open_fd\<close> the same on an integer, which it takes for a file descriptor.
\<close>

datatype write_fault = NoFault | OpenFails | WriteFails nat

text \<open>
  The settings file, as \<open>load_settings\<close> meets it: missing, refused for lack of
  permission (\<open>Unreadable\<close>), failing to open or to read with another \<open>OSError\<close>
  (a directory of that name, for one), not JSON, not UTF-8, or holding a JSON value.
\<close>

datatype settings_file = Absent | Unreadable | OpenError | Malformed | BadEncoding | Content pyval

record filesystem =
  key_file :: "bytes option"
  key_read_fails :: bool
  key_write_fault :: write_fault
  settings_file :: settings_file
  settings_write_fault :: write_fault
  files :: "str \<rightharpoonup> bytes"
  write_fault_at :: "str \<Rightarrow> write_fault"
  can_remove :: "str \<Rightarrow> bool"
  path_exists :: "str \<Rightarrow> bool"
  can_mkdir :: "str \<Rightarrow> bool"
  open_fd :: "int \<Rightarrow> bool"

section \<open>The key\<close>

datatype key_event = KeyRead | KeyGenerated bytes | KeyWriteAttempt bytes | KeyErrorPrinted

record key_outcome =
  loaded_key :: bytes
  fs_after :: filesystem
  rng_after :: rng
  key_log :: "key_event list"

text \<open>
  \<open>load_or_generate_key\<close>. An existing file is read whole (\<open>f.read()\<close>). Any exception,
  from the read or from the write, is printed and a new key is drawn in the handler.
\<close>

definition load_or_generate_key :: "filesystem \<Rightarrow> rng \<Rightarrow> key_outcome" where
  "load_or_generate_key fs r =
     (case key_file fs of
        Some content \<Rightarrow>
          if key_read_fails fs then
            (let (k, r') = get_random_bytes 32 r
             in \<lparr>loaded_key = k, fs_after = fs, rng_after = r',
                 key_log = [KeyErrorPrinted, KeyGenerated k]\<rparr>)
          else \<lparr>loaded_key = content, fs_after = fs, rng_after = r, key_log = [KeyRead]\<rparr>
      | None \<Rightarrow>
          (let (k, r') = get_random_bytes 32 r in
           case key_write_fault fs of
             NoFault \<Rightarrow>
               \<lparr>loaded_key = k, fs_after = fs\<lparr>key_file := Some k\<rparr>, rng_after = r',
                key_log = [KeyGenerated k, KeyWriteAttempt k]\<rparr>
           | OpenFails \<Rightarrow>
               (let (k2, r'') = get_random_bytes 32 r'
                in \<lparr>loaded_key = k2, fs_after = fs, rng_after = r'',
                    key_log = [KeyGenerated k, KeyWriteAttempt k, KeyErrorPrinted,
                               KeyGenerated k2]\<rparr>)
           | WriteFails n \<Rightarrow>
               (let (k2, r'') = get_random_bytes 32 r'
                in \<lparr>loaded_key = k2, fs_after = fs\<lparr>key_file := Some (take n k)\<rparr>,
                    rng_after = r'',
                    key_log = [KeyGenerated k, KeyWriteAttempt k, KeyErrorPrinted,
                               KeyGenerated k2]\<rparr>)))"

text \<open>The first and the second 32-byte draw from the random source.\<close>

definition first_draw :: "rng \<Rightarrow> bytes" where
  "first_draw r = fst (get_random_bytes 32 r)"

definition second_draw :: "rng \<Rightarrow> bytes" where
  "second_draw r = fst (get_random_bytes 32 (snd (get_random_bytes 32 r)))"

text \<open>
  A file system with no file in it, where every directory exists and nothing fails, and a
  random tape that counts, to run the model on concrete inputs.
\<close>

definition fresh_disk :: filesystem where
  "fresh_disk =
     \<lparr>key_file = None, key_read_fails = False, key_write_fault = NoFault,
      settings_file = Absent, settings_write_fault = NoFault, files = Map.empty,
      write_fault_at = (\<lambda>p. NoFault), can_remove = (\<lambda>p. True), path_exists = (\<lambda>p. True),
      can_mkdir = (\<lambda>p. True), open_fd = (\<lambda>n. n \<in> {0, 1, 2})\<rparr>"

definition counting_tape :: rng where
  "counting_tape = (\<lambda>i. of_nat i)"

section \<open>Settings\<close>

text \<open>The labels of the quality and size menus, as code points (Arabic).\<close>

definition quality_very_high :: str where
  "quality_very_high = [1593, 1575, 1604, 1610, 1577, 32, 1580, 1583, 1575, 1611]"

definition quality_high :: str where
  "quality_high = [1593, 1575, 1604, 1610, 1577]"

definition quality_medium :: str where
  "quality_medium = [1605, 1578, 1608, 1587, 1591, 1577]"

definition quality_low :: str where
  "quality_low = [1605, 1606, 1582, 1601, 1590, 1577]"

definition size_small :: str where
  "size_small = [1589, 1594, 1610, 1585]"

definition size_medium :: str where
  "size_medium = [1605, 1578, 1608, 1587, 1591]"

definition size_large :: str where
  "size_large = [1603, 1576, 1610, 1585]"

definition size_very_large :: str where
  "size_very_large = [1603, 1576, 1610, 1585, 32, 1580, 1583, 1575, 1611]"

text \<open>
  \<open>os.path.isabs\<close> and \<open>os.path.join\<close> of \<open>posixpath\<close>; the second component of
  every join in the program is a relative file name.
\<close>

definition isabs :: "str \<Rightarrow> bool" where
  "isabs p = (case p of [] \<Rightarrow> False | c # rest \<Rightarrow> c = 47)"

definition path_join :: "str \<Rightarrow> str \<Rightarrow> str" where
  "path_join a b = (if a = [] \<or> last a = 47 then a @ b else a @ [47] @ b)"

text \<open>
  \<open>setup_app_settings\<close>: the defaults. The default save path is \<open>QR-pass\<close> under the
  user's home directory, which is an input.
\<close>

definition setup_app_settings :: "str \<Rightarrow> dict" where
  "setup_app_settings home =
     [(ascii ''save_path'', PStr (path_join home (ascii ''QR-pass''))),
      (ascii ''auto_save'', PBool False),
      (ascii ''image_quality'', PStr quality_high),
      (ascii ''qr_size'', PStr size_medium),
      (ascii ''qr_color'', PStr (ascii ''#000000'')),
      (ascii ''qr_bg_color'', PStr (ascii ''#FFFFFF'')),
      (ascii ''language'', PStr (ascii ''ar''))]"

text \<open>
  \<open>validate_path\<close>: an absolute path under which \<open>test.txt\<close> can be created, written and
  removed. Any exception (a value that is no string included) gives \<open>False\<close>. After a
  successful probe there is no \<open>test.txt\<close> in the directory, whether there was one before
  or not. A probe that fails after the file was opened leaves the file behind: with what
  was written of \<open>test\<close> when the write failed, with all of it when the removal failed.
\<close>

definition validate_path :: "filesystem \<Rightarrow> pyval \<Rightarrow> bool \<times> filesystem" where
  "validate_path fs path =
     (case path of
        PStr p \<Rightarrow>
          if \<not> isabs p then (False, fs)
          else
            (let test_file = path_join p (ascii ''test.txt'')
             in case write_fault_at fs test_file of
                  OpenFails \<Rightarrow> (False, fs)
                | WriteFails n \<Rightarrow>
                    (False, fs\<lparr>files := (files fs)(test_file \<mapsto> take n (map of_nat (ascii ''test'')))\<rparr>)
                | NoFault \<Rightarrow>
                    if can_remove fs test_file
                    then (True, fs\<lparr>files := (files fs)(test_file := None)\<rparr>)
                    else (False, fs\<lparr>files := (files fs)(test_file \<mapsto> map of_nat (ascii ''test''))\<rparr>))
      | _ \<Rightarrow> (False, fs))"

text \<open>\<open>needle in haystack\<close> for two strings.\<close>

fun contains_text :: "str \<Rightarrow> str \<Rightarrow> bool" where
  "contains_text needle [] = (needle = [])"
| "contains_text needle (c # cs) =
     (take (length needle) (c # cs) = needle \<or> contains_text needle cs)"

text \<open>
  \<open>load_settings\<close>. \<open>FileNotFoundError\<close>, \<open>JSONDecodeError\<close> and \<open>PermissionError\<close> are
  caught; any other \<open>OSError\<close>, a file that is not UTF-8, and a JSON value that is not an
  object, are not provided for and raise. The loaded object replaces values only when it has a
  \<open>save_path\<close> that passes \<open>validate_path\<close>, and then as a whole.
\<close>

definition load_settings :: "filesystem \<Rightarrow> dict \<Rightarrow> py_error + (dict \<times> filesystem)" where
  "load_settings fs app_settings =
     (case settings_file fs of
        Absent \<Rightarrow> Inr (app_settings, fs)
      | Unreadable \<Rightarrow> Inr (app_settings, fs)
      | OpenError \<Rightarrow> Inl OSError
      | Malformed \<Rightarrow> Inr (app_settings, fs)
      | BadEncoding \<Rightarrow> Inl UnicodeDecodeError
      | Content loaded \<Rightarrow>
          (case loaded of
             PDict pairs \<Rightarrow>
               (let loaded_settings = dict_update [] pairs in
                case dict_get loaded_settings (ascii ''save_path'') of
                  None \<Rightarrow> Inr (app_settings, fs)
                | Some p \<Rightarrow>
                    (let (ok, fs') = validate_path fs p
                     in if ok then Inr (dict_update app_settings loaded_settings, fs')
                        else Inr (app_settings, fs')))
           | PList xs \<Rightarrow>
               if PStr (ascii ''save_path'') \<in> set xs then Inl TypeError
               else Inr (app_settings, fs)
           | PStr s \<Rightarrow>
               if contains_text (ascii ''save_path'') s then Inl TypeError
               else Inr (app_settings, fs)
           | _ \<Rightarrow> Inl TypeError))"

text \<open>
  \<open>save_settings\<close>: every exception is printed and swallowed. Opening the file for
  writing truncates it, so a write that fails leaves a file that is not JSON.
\<close>

definition save_settings :: "filesystem \<Rightarrow> dict \<Rightarrow> filesystem" where
  "save_settings fs app_settings =
     (case settings_write_fault fs of
        NoFault \<Rightarrow> fs\<lparr>settings_file := Content (PDict app_settings)\<rparr>
      | OpenFails \<Rightarrow> fs
      | WriteFails n \<Rightarrow> fs\<lparr>settings_file := Malformed\<rparr>)"

record settings_form =
  save_path_field :: str
  auto_save_switch :: bool
  image_quality_dropdown :: str
  qr_size_dropdown :: str
  qr_color_picker :: str
  qr_bg_color_picker :: str
  language_dropdown :: str

datatype save_message = PathRejected | ColorRejected | BackgroundRejected | SettingsSaved

record save_outcome =
  settings_after :: dict
  disk_after :: filesystem
  shown :: save_message

text \<open>
  \<open>save_settings_changes\<close>: three checks, each returning with its message; then the
  dictionary is updated, then written, then the success message is shown.
\<close>

definition save_settings_changes :: "filesystem \<Rightarrow> dict \<Rightarrow> settings_form \<Rightarrow> save_outcome" where
  "save_settings_changes fs app_settings ui =
     (let (path_ok, fs1) = validate_path fs (PStr (save_path_field ui)) in
      if \<not> path_ok then
        \<lparr>settings_after = app_settings, disk_after = fs1, shown = PathRejected\<rparr>
      else if \<not> validate_color (qr_color_picker ui) then
        \<lparr>settings_after = app_settings, disk_after = fs1, shown = ColorRejected\<rparr>
      else if \<not> validate_color (qr_bg_color_picker ui) then
        \<lparr>settings_after = app_settings, disk_after = fs1, shown = BackgroundRejected\<rparr>
      else
        (let updated = dict_update app_settings
               [(ascii ''save_path'', PStr (save_path_field ui)),
                (ascii ''auto_save'', PBool (auto_save_switch ui)),
                (ascii ''image_quality'', PStr (image_quality_dropdown ui)),
                (ascii ''qr_size'', PStr (qr_size_dropdown ui)),
                (ascii ''qr_color'', PStr (qr_color_picker ui)),
                (ascii ''qr_bg_color'', PStr (qr_bg_color_picker ui)),
                (ascii ''language'', PStr (language_dropdown ui))]
         in \<lparr>settings_after = updated, disk_after = save_settings fs1 updated,
             shown = SettingsSaved\<rparr>))"

text \<open>Concrete form values and settings files, to run the model on.\<close>

definition sample_ui :: settings_form where
  "sample_ui =
     \<lparr>save_path_field = ascii ''/tmp'', auto_save_switch = True,
      image_quality_dropdown = quality_high, qr_size_dropdown = size_medium,
      qr_color_picker = ascii ''#112233'', qr_bg_color_picker = ascii ''#FFFFFF'',
      language_dropdown = ascii ''ar''\<rparr>"

definition sample_file :: pyval where
  "sample_file =
     PDict [(ascii ''save_path'', PStr (ascii ''/data/qr'')),
            (ascii ''qr_color'', PStr (ascii ''#112233'')),
            (ascii ''theme'', PStr (ascii ''dark''))]"

definition sample_file_relative :: pyval where
  "sample_file_relative =
     PDict [(ascii ''save_path'', PStr (ascii ''relative/dir'')),
            (ascii ''qr_color'', PStr (ascii ''#112233''))]"

section \<open>The QR image\<close>

text \<open>
  The QR encoder and the imaging library are parameters of the model: building the
  symbol from the text (\<open>add_data\<close> and \<open>make\<close>), rendering it with a fill and a
  background colour (\<open>make_image\<close>), and writing the PNG bytes (\<open>save\<close>). Each can raise.
\<close>

record ('sym, 'img) imaging =
  qr_make :: "str \<Rightarrow> py_error + 'sym"
  make_image :: "'sym \<Rightarrow> pyval \<Rightarrow> pyval \<Rightarrow> py_error + 'img"
  save_png :: "'img \<Rightarrow> nat \<Rightarrow> py_error + bytes"

text \<open>
  \<open>table.get(app_settings[key], dflt)\<close>: a missing key raises \<open>KeyError\<close>, a list or a
  dictionary as value is unhashable and raises \<open>TypeError\<close>, and any other value that is
  not a label of the table gives the default.
\<close>

definition lookup_label :: "dict \<Rightarrow> str \<Rightarrow> (str \<times> nat) list \<Rightarrow> nat \<Rightarrow> py_error + nat" where
  "lookup_label app_settings k table dflt =
     (case dict_get app_settings k of
        None \<Rightarrow> Inl KeyError
      | Some (PStr s) \<Rightarrow> Inr (case map_of table s of None \<Rightarrow> dflt | Some n \<Rightarrow> n)
      | Some (PList xs) \<Rightarrow> Inl TypeError
      | Some (PDict kvs) \<Rightarrow> Inl TypeError
      | Some v \<Rightarrow> Inr dflt)"

definition get_qr_size :: "dict \<Rightarrow> py_error + nat" where
  "get_qr_size app_settings =
     lookup_label app_settings (ascii ''qr_size'')
       [(size_small, 200), (size_medium, 300), (size_large, 400), (size_very_large, 500)] 300"

definition get_image_quality :: "dict \<Rightarrow> py_error + nat" where
  "get_image_quality app_settings =
     lookup_label app_settings (ascii ''image_quality'')
       [(quality_very_high, 100), (quality_high, 90), (quality_medium, 75), (quality_low, 50)]
       90"

text \<open>
  \<open>create_qr_code_image\<close>. The colours are read from the settings with
  \<open>app_settings.get\<close> and handed to the library as they are; the size argument is not
  used. The PNG bytes are returned as base64 text.
\<close>

definition fill_color :: "dict \<Rightarrow> pyval" where
  "fill_color app_settings =
     dict_get_default app_settings (ascii ''qr_color'') (PStr (ascii ''#000000''))"

definition back_color :: "dict \<Rightarrow> pyval" where
  "back_color app_settings =
     dict_get_default app_settings (ascii ''qr_bg_color'') (PStr (ascii ''#FFFFFF''))"

text \<open>
  A colour value that the settings dialog would accept: a string that passes
  \<open>validate_color\<close>.
\<close>

definition valid_color_value :: "pyval \<Rightarrow> bool" where
  "valid_color_value v = (case v of PStr s \<Rightarrow> validate_color s | _ \<Rightarrow> False)"

definition create_qr_code_image ::
  "('sym, 'img) imaging \<Rightarrow> dict \<Rightarrow> str \<Rightarrow> nat \<Rightarrow> py_error + str" where
  "create_qr_code_image lib app_settings data qr_size =
     (case qr_make lib data of
        Inl e \<Rightarrow> Inl e
      | Inr qr \<Rightarrow>
          (case make_image lib qr (fill_color app_settings) (back_color app_settings) of
             Inl e \<Rightarrow> Inl e
           | Inr img \<Rightarrow>
               (case get_image_quality app_settings of
                  Inl e \<Rightarrow> Inl e
                | Inr quality \<Rightarrow>
                    (case save_png lib img quality of
                       Inl e \<Rightarrow> Inl e
                     | Inr buffered \<Rightarrow> decode_utf8 (b64encode buffered)))))"

text \<open>
  A stand-in imaging library, to run the model on concrete inputs. It is not Pillow: of
  the colour strings Pillow takes it knows \<open>#\<close> with 3, 4, 6 or 8 hexadecimal digits and
  five colour names, it refuses every other value, and its image is the text itself.
\<close>

definition pillow_color :: "pyval \<Rightarrow> bool" where
  "pillow_color v =
     (case v of
        PStr s \<Rightarrow>
          (case s of
             [] \<Rightarrow> False
           | c # rest \<Rightarrow>
               (c = 35 \<and> list_all hex_digit rest \<and> length rest \<in> set [3, 4, 6, 8])
               \<or> s \<in> set [ascii ''black'', ascii ''white'', ascii ''red'', ascii ''green'',
                             ascii ''blue''])
      | _ \<Rightarrow> False)"

definition pillow_like :: "(str, str \<times> pyval \<times> pyval) imaging" where
  "pillow_like =
     \<lparr>qr_make = (\<lambda>data. if length data \<le> 1273 then Inr data else Inl ValueError),
      make_image = (\<lambda>qr fill back.
         if pillow_color fill \<and> pillow_color back then Inr (qr, fill, back)
         else Inl ValueError),
      save_png = (\<lambda>img quality. Inr (map of_nat (fst img)))\<rparr>"

text \<open>Settings whose fill colour is the colour name \<open>red\<close>.\<close>

definition red_settings :: dict where
  "red_settings = dict_set (setup_app_settings (ascii ''/home/u'')) (ascii ''qr_color'')
                    (PStr (ascii ''red''))"

section \<open>Generating and saving a QR code\<close>

record app_state =
  KEY :: bytes
  app_settings :: dict
  random :: rng
  disk :: filesystem
  qr_image_src :: str
  qr_image_size :: nat

datatype stage = Collect | Encrypt | Encode | UpdateUi | Write

datatype ui_event =
    ValidationMessage validation_error
  | ErrorMessage py_error
  | SuccessMessage
  | Loading bool
  | Ran stage
  | FolderError
  | Saved str
  | SaveError

text \<open>
  \<open>os.path.exists\<close> on the value of \<open>save_path\<close>: a string is a path, an integer (a
  boolean is one) is taken for a file descriptor and must fit a C \<open>int\<close>, and any other
  value raises.
\<close>

definition exists_value :: "filesystem \<Rightarrow> pyval \<Rightarrow> py_error + bool" where
  "exists_value fs v =
     (case v of
        PStr p \<Rightarrow> Inr (path_exists fs p)
      | PInt n \<Rightarrow>
          if n < - (2 ^ 31) \<or> 2 ^ 31 \<le> n then Inl OverflowError else Inr (open_fd fs n)
      | PBool b \<Rightarrow> Inr (open_fd fs (if b then 1 else 0))
      | _ \<Rightarrow> Inl TypeError)"

text \<open>
  \<open>save_qr_code\<close>. A missing \<open>save_path\<close> key raises, and so does a value that
  \<open>os.path.exists\<close> or \<open>os.path.join\<close> does not take; both reach the caller. A
  directory that cannot be created (\<open>os.makedirs\<close> raises for every value that is no
  string) and a file that cannot be decoded or written are reported and do not raise. The
  image source is a string from the start, the empty one, which decodes to no bytes.
\<close>

definition save_qr_code :: "app_state \<Rightarrow> form \<Rightarrow> py_error + (app_state \<times> ui_event list)" where
  "save_qr_code app f =
     (case dict_get (app_settings app) (ascii ''save_path'') of
        None \<Rightarrow> Inl KeyError
      | Some v \<Rightarrow>
          (case exists_value (disk app) v of
             Inl e \<Rightarrow> Inl e
           | Inr found \<Rightarrow>
               (case v of
                  PStr save_path \<Rightarrow>
                    if \<not> found \<and> \<not> can_mkdir (disk app) save_path
                    then Inr (app, [FolderError])
                    else
                      (let fs1 = (disk app)\<lparr>path_exists := (path_exists (disk app))(save_path := True)\<rparr>;
                           file_path = path_join save_path
                                         (ascii ''qr_code_'' @ employee_id f @ ascii ''.png'')
                       in case b64decode_str (qr_image_src app) of
                            Inl e \<Rightarrow> Inr (app\<lparr>disk := fs1\<rparr>, [SaveError])
                          | Inr img_data \<Rightarrow>
                              (case write_fault_at fs1 file_path of
                                 NoFault \<Rightarrow>
                                   Inr (app\<lparr>disk := fs1\<lparr>files := (files fs1)(file_path \<mapsto> img_data)\<rparr>\<rparr>,
                                        [Saved file_path])
                               | OpenFails \<Rightarrow> Inr (app\<lparr>disk := fs1\<rparr>, [SaveError])
                               | WriteFails n \<Rightarrow>
                                   Inr (app\<lparr>disk := fs1\<lparr>files := (files fs1)(file_path \<mapsto> take n img_data)\<rparr>\<rparr>,
                                        [SaveError])))
                | _ \<Rightarrow> if found then Inl TypeError else Inr (app, [FolderError]))))"

text \<open>
  The body of the \<open>try\<close> block of \<open>generate_qr_code\<close>: the stages in order, each stopping
  the run when it raises. What a stage changed before a later one raised stays changed.
\<close>

definition generate_stages ::
  "block_cipher \<Rightarrow> ('sym, 'img) imaging \<Rightarrow> app_state \<Rightarrow> form \<Rightarrow> app_state \<times> ui_event list" where
  "generate_stages aes lib app f =
     (let data = collect_employee_data f;
          (encrypted, r') = encrypt_data aes (KEY app) (random app) data;
          app1 = app\<lparr>random := r'\<rparr>
      in case encrypted of
           Inl e \<Rightarrow> (app1, [Ran Collect, Ran Encrypt, ErrorMessage e])
         | Inr encrypted_data \<Rightarrow>
             (case get_qr_size (app_settings app1) of
                Inl e \<Rightarrow> (app1, [Ran Collect, Ran Encrypt, ErrorMessage e])
              | Inr qr_size \<Rightarrow>
                  (case create_qr_code_image lib (app_settings app1) encrypted_data qr_size of
                     Inl e \<Rightarrow> (app1, [Ran Collect, Ran Encrypt, Ran Encode, ErrorMessage e])
                   | Inr img_str \<Rightarrow>
                       (let app2 = app1\<lparr>qr_image_src := img_str, qr_image_size := qr_size\<rparr>;
                            done = [Ran Collect, Ran Encrypt, Ran Encode, Ran UpdateUi]
                        in case dict_get (app_settings app2) (ascii ''auto_save'') of
                             None \<Rightarrow> (app2, done @ [ErrorMessage KeyError])
                           | Some auto_save \<Rightarrow>
                               if truthy auto_save then
                                 (case save_qr_code app2 f of
                                    Inl e \<Rightarrow> (app2, done @ [Ran Write, ErrorMessage e])
                                  | Inr (app3, events) \<Rightarrow>
                                      (app3, done @ [Ran Write] @ events @ [SuccessMessage]))
                               else (app2, done @ [SuccessMessage])))))"

text \<open>
  \<open>generate_qr_code\<close>: a form that fails validation shows the message and returns;
  otherwise the stages run between the two calls of \<open>show_loading\<close>.
\<close>

definition generate_qr_code ::
  "block_cipher \<Rightarrow> ('sym, 'img) imaging \<Rightarrow> app_state \<Rightarrow> form \<Rightarrow> app_state \<times> ui_event list" where
  "generate_qr_code aes lib app f =
     (case validate_inputs f of
        Inl error_msg \<Rightarrow> (app, [ValidationMessage error_msg])
      | Inr ok \<Rightarrow>
          (let (app', events) = generate_stages aes lib app f
           in (app', [Loading True] @ events @ [Loading False])))"

section \<open>Colour validation\<close>

lemma validate_color_three: "length h = 3 \<Longrightarrow> list_all hex_digit h \<Longrightarrow> validate_color (35 # h)"
  by (simp add: validate_color_def hex_group_def at_dollar_def)

lemma validate_color_six: "length h = 6 \<Longrightarrow> list_all hex_digit h \<Longrightarrow> validate_color (35 # h)"
  by (simp add: validate_color_def hex_group_def at_dollar_def)

lemma hex_group_iff:
  "hex_group n s \<longleftrightarrow>
     (\<exists>h. (s = h \<or> s = h @ [10]) \<and> length h = n \<and> list_all hex_digit h)"
proof
  assume g: "hex_group n s"
  then have "s = take n s @ drop n s" "length (take n s) = n" "list_all hex_digit (take n s)"
    "drop n s = [] \<or> drop n s = [10]"
    by (simp_all add: hex_group_def at_dollar_def)
  then show "\<exists>h. (s = h \<or> s = h @ [10]) \<and> length h = n \<and> list_all hex_digit h"
    by (metis append_Nil2)
next
  assume "\<exists>h. (s = h \<or> s = h @ [10]) \<and> length h = n \<and> list_all hex_digit h"
  then obtain h where "s = h \<or> s = h @ [10]" "length h = n" "list_all hex_digit h" by blast
  then show "hex_group n s" by (auto simp add: hex_group_def at_dollar_def)
qed

lemma validate_color_iff:
  "validate_color color \<longleftrightarrow>
     (\<exists>h. (color = 35 # h \<or> color = 35 # h @ [10]) \<and> (length h = 3 \<or> length h = 6)
          \<and> list_all hex_digit h)"
  by (cases color) (auto simp add: validate_color_def hex_group_iff)

text \<open>
  C9. The pattern is meant to accept exactly \<open>#\<close> followed by three or six hexadecimal
  digits, and every such string is accepted. The string \<open>#FFF\<close> followed by a newline has
  a character outside the hexadecimal alphabet and is accepted all the same, because
  \<open>$\<close> matches before a final newline.
\<close>

theorem validate_color_trailing_newline:
  "validate_color [35, 70, 70, 70, 10] \<and> \<not> list_all hex_digit [70, 70, 70, 10]"
  by (simp add: validate_color_def hex_group_def at_dollar_def hex_digit_def)

section \<open>UTF-8: decoding undoes encoding\<close>

lemma unat_of_nat_byte: "n < 256 \<Longrightarrow> unat (of_nat n :: byte) = n"
  by (simp add: unat_of_nat)

lemma shift6: "(x::nat) div 64 * (64 * k) + x mod 64 * k = x * k"
proof -
  have "x * k = (x div 64 * 64 + x mod 64) * k" by simp
  also have "\<dots> = x div 64 * (64 * k) + x mod 64 * k"
    by (simp only: add_mult_distrib mult.assoc)
  finally show ?thesis by simp
qed

lemma recompose2: "(c::nat) div 4096 * 4096 + c div 64 mod 64 * 64 + c mod 64 = c"
proof -
  have "c div 4096 = c div 64 div 64" by (simp add: div_mult2_eq)
  then have "c div 4096 * 4096 + c div 64 mod 64 * 64 = c div 64 * 64"
    using shift6 [of "c div 64" 64] by simp
  then show ?thesis by simp
qed

lemma recompose3:
  "(c::nat) div 262144 * 262144 + c div 4096 mod 64 * 4096 + c div 64 mod 64 * 64 + c mod 64 = c"
proof -
  have "c div 262144 = c div 4096 div 64" by (simp add: div_mult2_eq)
  then have "c div 262144 * 262144 + c div 4096 mod 64 * 4096 = c div 4096 * 4096"
    using shift6 [of "c div 4096" 4096] by simp
  then show ?thesis using recompose2 [of c] by simp
qed

lemma decode_utf8_two:
  assumes "0x80 \<le> c" "c < 0x800"
  shows "decode_utf8 (of_nat (0xC0 + c div 64) # of_nat (0x80 + c mod 64) # bs)
         = cons_char c (decode_utf8 bs)"
proof -
  have r: "c div 64 < 32" using assms by (simp add: less_mult_imp_div_less)
  have r2: "2 \<le> c div 64" using assms by (simp add: less_eq_div_iff_mult_less_eq)
  have a: "unat (of_nat (0xC0 + c div 64) :: byte) = 0xC0 + c div 64"
    using r by (intro unat_of_nat_byte) simp
  have b: "unat (of_nat (0x80 + c mod 64) :: byte) = 0x80 + c mod 64"
    by (intro unat_of_nat_byte) simp
  have v: "c div 64 * 64 + c mod 64 = c" by simp
  show ?thesis using r assms
    by (simp add: a b is_cont_def cont_bits_def Let_def v del: of_nat_add of_nat_numeral)
qed


lemma decode_utf8_three:
  assumes "0x800 \<le> c" "c < 0x10000" "is_scalar c"
  shows "decode_utf8 (of_nat (0xE0 + c div 4096) # of_nat (0x80 + c div 64 mod 64)
                      # of_nat (0x80 + c mod 64) # bs)
         = cons_char c (decode_utf8 bs)"
proof -
  have r: "c div 4096 < 16" using assms by (simp add: less_mult_imp_div_less)
  have a: "unat (of_nat (0xE0 + c div 4096) :: byte) = 0xE0 + c div 4096"
    using r by (intro unat_of_nat_byte) simp
  have b: "unat (of_nat (0x80 + c div 64 mod 64) :: byte) = 0x80 + c div 64 mod 64"
    by (intro unat_of_nat_byte) simp
  have d: "unat (of_nat (0x80 + c mod 64) :: byte) = 0x80 + c mod 64"
    by (intro unat_of_nat_byte) simp
  show ?thesis using r assms
    by (simp add: a b d is_cont_def cont_bits_def Let_def recompose2
             del: of_nat_add of_nat_numeral)
qed

lemma decode_utf8_four:
  assumes "0x10000 \<le> c" "c < 0x110000"
  shows "decode_utf8 (of_nat (0xF0 + c div 262144) # of_nat (0x80 + c div 4096 mod 64)
                      # of_nat (0x80 + c div 64 mod 64) # of_nat (0x80 + c mod 64) # bs)
         = cons_char c (decode_utf8 bs)"
proof -
  have r: "c div 262144 < 5" using assms by (simp add: less_mult_imp_div_less)
  have a: "unat (of_nat (0xF0 + c div 262144) :: byte) = 0xF0 + c div 262144"
    using r by (intro unat_of_nat_byte) simp
  have b: "unat (of_nat (0x80 + c div 4096 mod 64) :: byte) = 0x80 + c div 4096 mod 64"
    by (intro unat_of_nat_byte) simp
  have b2: "unat (of_nat (0x80 + c div 64 mod 64) :: byte) = 0x80 + c div 64 mod 64"
    by (intro unat_of_nat_byte) simp
  have d: "unat (of_nat (0x80 + c mod 64) :: byte) = 0x80 + c mod 64"
    by (intro unat_of_nat_byte) simp
  have s: "is_scalar c" using assms by (simp add: is_scalar_def)
  show ?thesis using r assms s
    by (simp add: a b b2 d is_cont_def cont_bits_def Let_def recompose3
             del: of_nat_add of_nat_numeral)
qed

lemma decode_utf8_char:
  assumes "is_scalar c"
  shows "decode_utf8 (utf8_char c @ bs) = cons_char c (decode_utf8 bs)"
proof -
  consider "c < 0x80" | "0x80 \<le> c" "c < 0x800" | "0x800 \<le> c" "c < 0x10000" | "0x10000 \<le> c" "c < 0x110000"
    using assms unfolding is_scalar_def by linarith
  then show ?thesis
  proof cases
    case 1
    then show ?thesis by (simp add: utf8_char_def unat_of_nat_byte)
  next
    case 2
    then show ?thesis
      using decode_utf8_two [of c bs] by (simp add: utf8_char_def del: of_nat_add of_nat_numeral decode_utf8.simps)
  next
    case 3
    then show ?thesis
      using decode_utf8_three [of c bs] assms by (simp add: utf8_char_def del: of_nat_add of_nat_numeral decode_utf8.simps)
  next
    case 4
    then show ?thesis
      using decode_utf8_four [of c bs] by (simp add: utf8_char_def del: of_nat_add of_nat_numeral decode_utf8.simps)
  qed
qed

lemma encode_utf8_text: "unicode_text s \<Longrightarrow> encode_utf8 s = Inr (concat (map utf8_char s))"
  by (induction s) (simp_all add: unicode_text_def)

lemma decode_utf8_concat: "unicode_text s \<Longrightarrow> decode_utf8 (concat (map utf8_char s)) = Inr s"
  by (induction s) (simp_all add: unicode_text_def decode_utf8_char cons_char_def del: decode_utf8.simps(2))


lemma unat_b64_char:
  "n < 64 \<Longrightarrow> unat (b64_char n) =
     (if n < 26 then 65 + n else if n < 52 then 97 + (n - 26) else if n < 62 then 48 + (n - 52)
      else if n = 62 then 43 else 47)"
  by (simp add: b64_char_def unat_of_nat del: of_nat_add of_nat_numeral of_nat_diff)

lemma unat_byte_less: "unat (b :: byte) < 256"
  using unsigned_less [of b, where ?'a = nat] by simp

lemma b64_val_char:
  assumes "n < 64"
  shows "b64_val (b64_char n) = Some n"
proof -
  consider "n < 26" | "26 \<le> n" "n < 52" | "52 \<le> n" "n < 62" | "n = 62" | "n = 63"
    using assms by linarith
  then show ?thesis
    by cases (auto simp add: b64_val_def unat_b64_char Let_def)
qed

lemma b64_char_ascii: "n < 64 \<Longrightarrow> unat (b64_char n) < 128"
  by (auto simp add: unat_b64_char)

lemma b64_char_not_colon: "n < 64 \<Longrightarrow> unat (b64_char n) \<noteq> 58"
  by (auto simp add: unat_b64_char)

lemma b64_char_not_pad: "n < 64 \<Longrightarrow> b64_char n \<noteq> 61"
proof
  assume "n < 64" "b64_char n = 61"
  then have "unat (b64_char n) = 61" by simp
  with \<open>n < 64\<close> show False by (auto simp add: unat_b64_char split: if_splits)
qed

lemma word_of_unat_byte: "(of_nat (unat b) :: byte) = b"
  by simp

lemma sextet_less:
  "sextet0 a < 64" "sextet1 a b < 64" "sextet2 b c < 64" "sextet3 c < 64"
proof -
  have l: "unat a < 256" "unat b < 256" "unat c < 256"
    by (rule unat_byte_less)+
  show "sextet0 a < 64" using l by (simp add: sextet0_def less_mult_imp_div_less)
  have "unat b div 16 < 16" "unat a mod 4 < 4"
    using l by (simp_all add: less_mult_imp_div_less)
  then show "sextet1 a b < 64" unfolding sextet1_def by linarith
  have "unat c div 64 < 4" "unat b mod 16 < 16"
    using l by (simp_all add: less_mult_imp_div_less)
  then show "sextet2 b c < 64" unfolding sextet2_def by linarith
  show "sextet3 c < 64" by (simp add: sextet3_def)
qed

lemma octet0_sextets: "octet0 (sextet0 a) (sextet1 a b) = a"
proof -
  have "unat b div 16 < 16" using unat_byte_less [of b] by (simp add: less_mult_imp_div_less)
  then have "(unat a mod 4 * 16 + unat b div 16) div 16 = unat a mod 4" by simp
  then show ?thesis by (simp add: octet0_def sextet0_def sextet1_def)
qed

lemma octet1_sextets: "octet1 (sextet1 a b) (sextet2 b c) = b"
proof -
  have "unat b div 16 < 16" using unat_byte_less [of b] by (simp add: less_mult_imp_div_less)
  then have x: "(unat a mod 4 * 16 + unat b div 16) mod 16 = unat b div 16" by simp
  have "unat c div 64 < 4" using unat_byte_less [of c] by (simp add: less_mult_imp_div_less)
  then have y: "(unat b mod 16 * 4 + unat c div 64) div 4 = unat b mod 16" by simp
  show ?thesis unfolding octet1_def sextet1_def sextet2_def
    by (simp only: x y div_mult_mod_eq word_of_unat_byte)
qed

lemma octet2_sextets: "octet2 (sextet2 b c) (sextet3 c) = c"
proof -
  have "unat c div 64 < 4" using unat_byte_less [of c] by (simp add: less_mult_imp_div_less)
  then have x: "(unat b mod 16 * 4 + unat c div 64) mod 4 = unat c div 64" by simp
  show ?thesis unfolding octet2_def sextet2_def sextet3_def
    by (simp only: x div_mult_mod_eq word_of_unat_byte)
qed

lemma b64decode_b64encode: "b64decode (b64encode bs) = Inr bs"
proof (induction bs rule: b64encode.induct)
  case 1
  show ?case by simp
next
  case (2 a)
  show ?case
    by (simp add: b64_val_char sextet_less octet0_sextets)
next
  case (3 a b)
  show ?case
    by (simp add: b64_val_char sextet_less b64_char_not_pad octet0_sextets octet1_sextets)
next
  case (4 a b c rest)
  then show ?case
    by (simp add: b64_val_char sextet_less b64_char_not_pad octet0_sextets octet1_sextets
          octet2_sextets)
qed

section \<open>Base64 output and the envelope's separator\<close>

lemma decode_utf8_ascii:
  "list_all (\<lambda>b. unat b < 128) bs \<Longrightarrow> decode_utf8 bs = Inr (map unat bs)"
  by (induction bs) (simp_all add: cons_char_def)

lemma b64_out_char: "n < 64 \<Longrightarrow> b64_out (b64_char n)"
  by (simp add: b64_out_def b64_char_ascii b64_char_not_colon)

lemma b64_out_pad: "b64_out 61"
  by (simp add: b64_out_def)

lemma b64encode_out: "list_all b64_out (b64encode bs)"
  by (induction bs rule: b64encode.induct) (simp_all add: b64_out_char b64_out_pad sextet_less)

lemma b64encode_ascii: "list_all (\<lambda>b. unat b < 128) (b64encode bs)"
  using b64encode_out [of bs] by (simp add: list_all_iff b64_out_def)

lemma b64encode_text: "decode_utf8 (b64encode bs) = Inr (map unat (b64encode bs))"
  by (rule decode_utf8_ascii) (rule b64encode_ascii)

lemma b64encode_no_colon: "58 \<notin> set (map unat (b64encode bs))"
  using b64encode_out [of bs] by (auto simp add: list_all_iff b64_out_def)

lemma b64decode_text_encode: "b64decode_text (map unat (b64encode bs)) = Inr bs"
proof -
  have "list_all (\<lambda>c. c < 128) (map unat (b64encode bs))"
    using b64encode_ascii [of bs] by (simp add: list_all_iff)
  moreover have "map of_nat (map unat (b64encode bs)) = b64encode bs"
    by (simp add: map_idI)
  ultimately show ?thesis
    by (simp add: b64decode_text_def b64decode_b64encode del: map_map)
qed





lemma a2b_base64_b64encode: "a2b_base64 0 p 0 (b64encode bs) = Inr bs"
  by (induction bs arbitrary: p rule: b64encode.induct)
     (simp_all add: b64_val_char sextet_less b64_char_not_pad octet0_sextets octet1_sextets octet2_sextets)

lemma b64decode_str_encode: "b64decode_str (map unat (b64encode bs)) = Inr bs"
proof -
  have "list_all (\<lambda>c. c < 128) (map unat (b64encode bs))"
    using b64encode_ascii [of bs] by (simp add: list_all_iff)
  moreover have "map of_nat (map unat (b64encode bs)) = b64encode bs"
    by (simp add: map_idI)
  ultimately show ?thesis
    by (simp add: b64decode_str_def a2b_base64_b64encode del: map_map)
qed

lemma split_on_no_sep: "sep \<notin> set s \<Longrightarrow> split_on sep s = [s]"
  by (induction s) auto

lemma split_on_append:
  "sep \<notin> set a \<Longrightarrow> split_on sep (a @ sep # b) = a # split_on sep b"
  by (induction a) (auto split: list.splits)

section \<open>Padding and chaining\<close>

lemma pad_arith: "((n::nat) + (16 - n mod 16)) mod 16 = 0"
proof -
  have "n mod 16 < 16" by simp
  then have "n + (16 - n mod 16) = (n - n mod 16) + 16"
    using mod_less_eq_dividend [of n 16] by simp
  also have "\<dots> = (n div 16 + 1) * 16"
    by (simp add: minus_mod_eq_div_mult)
  finally show ?thesis by simp
qed

lemma rest_arith: "16 \<le> (n::nat) \<Longrightarrow> n mod 16 = 0 \<Longrightarrow> (n - 16) mod 16 = 0"
  using le_mod_geq [of 16 n] by simp

lemma len_arith: "(n::nat) \<noteq> 0 \<Longrightarrow> n mod 16 = 0 \<Longrightarrow> 16 \<le> n"
  by (cases "n < 16") auto

declare cbc_encrypt.simps [simp del] cbc_decrypt.simps [simp del]

lemma xor_bytes_length: "length (xor_bytes a b) = min (length a) (length b)"
  by (simp add: xor_bytes_def)

lemma xor_bytes_cancel: "length a = length b \<Longrightarrow> xor_bytes (xor_bytes a b) b = a"
proof (induction a arbitrary: b)
  case Nil
  then show ?case by (simp add: xor_bytes_def)
next
  case (Cons x xs)
  then obtain y ys where b: "b = y # ys" by (cases b) auto
  with Cons show ?case by (simp add: xor_bytes_def xor.assoc)
qed

lemma cbc_encrypt_Nil: "cbc_encrypt E prev [] = []"
  by (subst cbc_encrypt.simps) simp

lemma cbc_decrypt_Nil: "cbc_decrypt D prev [] = []"
  by (subst cbc_decrypt.simps) simp

lemma cbc_encrypt_step:
  "pt \<noteq> [] \<Longrightarrow>
     cbc_encrypt E prev pt
     = E (xor_bytes (take 16 pt) prev)
       @ cbc_encrypt E (E (xor_bytes (take 16 pt) prev)) (drop 16 pt)"
  by (subst cbc_encrypt.simps) simp

lemma cbc_decrypt_step:
  assumes "length c = 16"
  shows "cbc_decrypt D prev (c @ rest) = xor_bytes (D c) prev @ cbc_decrypt D c rest"
proof -
  from assms have "c \<noteq> []" by auto
  then have "cbc_decrypt D prev (c @ rest)
             = xor_bytes (D (take 16 (c @ rest))) prev
               @ cbc_decrypt D (take 16 (c @ rest)) (drop 16 (c @ rest))"
    by (subst cbc_decrypt.simps) simp
  then show ?thesis using assms by simp
qed

lemma cbc_roundtrip:
  assumes ok: "\<And>b. length b = 16 \<Longrightarrow> length (E b) = 16 \<and> D (E b) = b"
  shows "length prev = 16 \<Longrightarrow> length pt mod 16 = 0 \<Longrightarrow>
           cbc_decrypt D prev (cbc_encrypt E prev pt) = pt
           \<and> length (cbc_encrypt E prev pt) = length pt"
proof (induction "length pt" arbitrary: pt prev rule: less_induct)
  case less
  show ?case
  proof (cases "pt = []")
    case True
    then show ?thesis by (simp add: cbc_encrypt_Nil cbc_decrypt_Nil)
  next
    case False
    let ?p = "take 16 pt"
    let ?c = "E (xor_bytes ?p prev)"
    from False have "length pt \<noteq> 0" by simp
    then have len: "16 \<le> length pt"
      using less.prems(2) by (rule len_arith)
    then have lp: "length ?p = 16" by simp
    then have lx: "length (xor_bytes ?p prev) = 16"
      using less.prems(1) by (simp add: xor_bytes_length)
    have lc: "length ?c = 16" and dc: "D ?c = xor_bytes ?p prev"
      using ok [OF lx] by simp_all
    have "(length pt - 16) mod 16 = 0"
      using len less.prems(2) by (rule rest_arith)
    then have rest: "length (drop 16 pt) mod 16 = 0" by simp
    have shorter: "length (drop 16 pt) < length pt" using len by simp
    have ih: "cbc_decrypt D ?c (cbc_encrypt E ?c (drop 16 pt)) = drop 16 pt"
      "length (cbc_encrypt E ?c (drop 16 pt)) = length (drop 16 pt)"
      using less.hyps [OF shorter lc rest] by simp_all
    have enc: "cbc_encrypt E prev pt = ?c @ cbc_encrypt E ?c (drop 16 pt)"
      using False by (rule cbc_encrypt_step)
    have dec: "cbc_decrypt D prev (?c @ cbc_encrypt E ?c (drop 16 pt))
               = xor_bytes (D ?c) prev @ cbc_decrypt D ?c (cbc_encrypt E ?c (drop 16 pt))"
      using lc by (rule cbc_decrypt_step)
    have x: "xor_bytes (D ?c) prev = ?p"
      using lp less.prems(1) by (simp add: dc xor_bytes_cancel)
    have "cbc_decrypt D prev (cbc_encrypt E prev pt) = ?p @ drop 16 pt"
      by (simp only: enc dec x ih)
    moreover have "length (cbc_encrypt E prev pt) = 16 + length (drop 16 pt)"
      by (simp only: enc length_append lc ih)
    ultimately show ?thesis using len by simp
  qed
qed

lemma pad_len:
  "length (pad raw 16) mod 16 = 0"
proof -
  show ?thesis using pad_arith [of "length raw"] by (simp add: pad_def Let_def)
qed

lemma unpad_pad: "unpad (pad raw 16) 16 = Inr raw"
proof -
  define n where "n = 16 - length raw mod 16"
  have n: "1 \<le> n" "n \<le> 16" by (simp_all add: n_def)
  have p: "pad raw 16 = raw @ replicate n (of_nat n)" by (simp add: pad_def n_def Let_def)
  have m: "length (raw @ replicate n (of_nat n :: byte)) mod 16 = 0"
    using pad_len [of raw] by (simp add: p)
  have l: "last (raw @ replicate n (of_nat n :: byte)) = of_nat n" using n by simp
  have u: "unat (of_nat n :: byte) = n" using n by (simp add: unat_of_nat_byte)
  show ?thesis
    unfolding p unpad_def Let_def l u using n m by simp
qed

section \<open>The envelope\<close>

lemma encrypt_data_value:
  assumes key: "length k = 32" and utext: "unicode_text data"
  shows "encrypt_data aes k r data =
           (Inr (map unat (b64encode (map r [0..<16])) @ [58]
                 @ map unat (b64encode (cbc_encrypt (encrypt_block aes k) (map r [0..<16])
                                          (pad (concat (map utf8_char data)) 16)))),
            \<lambda>i. r (i + 16))"
  using key
  by (simp add: encrypt_data_def get_random_bytes_def encode_utf8_text [OF utext] b64encode_text
        block_size_def Let_def del: upt_Suc)

lemma split_envelope:
  "split_on 58 (map unat (b64encode a) @ [58] @ map unat (b64encode b))
     = [map unat (b64encode a), map unat (b64encode b)]"
  using split_on_append [OF b64encode_no_colon, of a "map unat (b64encode b)"]
    split_on_no_sep [OF b64encode_no_colon, of b]
  by simp

lemma decrypt_encrypt:
  assumes key: "length k = 32" and utext: "unicode_text data" and ok: "cipher_ok aes k"
  shows "decrypt_data aes k (projr (fst (encrypt_data aes k r data))) = Inr data"
proof -
  let ?iv = "map r [0..<16]"
  let ?raw = "concat (map utf8_char data)"
  let ?ct = "cbc_encrypt (encrypt_block aes k) ?iv (pad ?raw 16)"
  have iv: "length ?iv = 16" by simp
  have blk: "\<And>b. length b = 16 \<Longrightarrow>
      length (encrypt_block aes k b) = 16 \<and> decrypt_block aes k (encrypt_block aes k b) = b"
    using ok by (simp add: cipher_ok_def)
  have rt: "cbc_decrypt (decrypt_block aes k) ?iv ?ct = pad ?raw 16"
    and len: "length ?ct = length (pad ?raw 16)"
    using cbc_roundtrip [of "encrypt_block aes k" "decrypt_block aes k" ?iv "pad ?raw 16",
        OF blk iv pad_len] by simp_all
  have m: "length ?ct mod 16 = 0" by (simp only: len pad_len)
  show ?thesis
    by (simp only: encrypt_data_value [OF key utext] fst_conv sum.sel decrypt_data_def
          split_envelope list.case b64decode_text_encode sum.case iv m rt block_size_def
          unpad_pad decode_utf8_concat [OF utext] simp_thms if_False)
qed

lemma xor_cipher_ok: "length k = 32 \<Longrightarrow> cipher_ok xor_cipher k"
  by (simp add: cipher_ok_def xor_cipher_def xor_bytes_length xor_bytes_cancel)

text \<open>
  C1 (amended). For every text without surrogate code points and every 32-byte key,
  \<open>encrypt_data\<close> returns an envelope, and the inverse operation (split at the colon,
  base64-decode both fields, decrypt in CBC mode under the same key and the envelope's
  initialisation vector, remove the padding, decode UTF-8) returns the original text.
  The block transformation is any one that \<open>decrypt_block\<close> inverts on 16-byte blocks,
  as AES is.
\<close>

theorem encrypt_then_decrypt:
  assumes "length k = 32" and "unicode_text data" and "cipher_ok aes k"
  shows "\<exists>envelope. fst (encrypt_data aes k r data) = Inr envelope
                    \<and> decrypt_data aes k envelope = Inr data"
proof (intro exI conjI)
  show "fst (encrypt_data aes k r data)
        = Inr (map unat (b64encode (map r [0..<16])) @ [58]
               @ map unat (b64encode (cbc_encrypt (encrypt_block aes k) (map r [0..<16])
                                        (pad (concat (map utf8_char data)) 16))))"
    by (simp only: encrypt_data_value [OF assms(1,2)] fst_conv)
  then show "decrypt_data aes k
          (map unat (b64encode (map r [0..<16])) @ [58]
               @ map unat (b64encode (cbc_encrypt (encrypt_block aes k) (map r [0..<16])
                                        (pad (concat (map utf8_char data)) 16))))
        = Inr data"
    using decrypt_encrypt [OF assms, of r] by (simp only: sum.sel)
qed

theorem encrypt_then_decrypt_witness:
  "length (replicate 32 (1::byte)) = 32 \<and> unicode_text [1605, 72]
   \<and> cipher_ok xor_cipher (replicate 32 1)
   \<and> (\<exists>envelope. fst (encrypt_data xor_cipher (replicate 32 1) (\<lambda>i. of_nat i) [1605, 72]) = Inr envelope
          \<and> decrypt_data xor_cipher (replicate 32 1) envelope = Inr [1605, 72])"
proof -
  have k: "length (replicate 32 (1::byte)) = 32" by simp
  have u: "unicode_text [1605, 72]" by (simp add: unicode_text_def is_scalar_def)
  have c: "cipher_ok xor_cipher (replicate 32 1)" by (rule xor_cipher_ok) simp
  show ?thesis
    by (intro conjI k u c encrypt_then_decrypt [OF k u c])
qed


text \<open>
  A Python string can hold a lone surrogate; for such a text no envelope is produced.
\<close>

theorem encrypt_data_lone_surrogate:
  "fst (encrypt_data xor_cipher (replicate 32 1) counting_tape [72, 55296]) = Inl UnicodeEncodeError"
  by (simp add: encrypt_data_def get_random_bytes_def is_scalar_def Let_def del: upt_Suc)






section \<open>Serialisation and parsing\<close>

lemma strip_label_append: "strip_label label (label @ s) = Some s"
  by (simp add: strip_label_def)

lemma label_no_newline:
  "10 \<notin> set name_label" "10 \<notin> set id_label" "10 \<notin> set department_label"
  "10 \<notin> set notes_label"
  by (simp_all add: name_label_def id_label_def department_label_def notes_label_def)

lemma collect_lines:
  assumes "10 \<notin> set (employee_name f)" and "10 \<notin> set (employee_id f)"
    and "10 \<notin> set (department f)" and "10 \<notin> set (additional_info f)"
  shows "split_on 10 (collect_employee_data f)
         = [name_label @ employee_name f, id_label @ employee_id f,
            department_label @ department f]
           @ (if additional_info f = [] then [] else [notes_label @ additional_info f])"
proof -
  have a: "10 \<notin> set (name_label @ employee_name f)"
    and b: "10 \<notin> set (id_label @ employee_id f)"
    and c: "10 \<notin> set (department_label @ department f)"
    and d: "10 \<notin> set (notes_label @ additional_info f)"
    using assms label_no_newline by simp_all
  have three: "split_on 10 ((name_label @ employee_name f) @ 10 # (id_label @ employee_id f)
                  @ 10 # (department_label @ department f) @ rest)
               = (name_label @ employee_name f) # (id_label @ employee_id f)
                  # split_on 10 ((department_label @ department f) @ rest)" for rest
    using split_on_append [OF a] split_on_append [OF b] by simp
  show ?thesis
  proof (cases "additional_info f = []")
    case True
    then show ?thesis
      using three [of "[]"] split_on_no_sep [OF c]
      by (simp add: collect_employee_data_def)
  next
    case False
    then show ?thesis
      using three [of "10 # notes_label @ additional_info f"] split_on_append [OF c]
        split_on_no_sep [OF d]
      by (simp add: collect_employee_data_def)
  qed
qed

text \<open>
  C4 (amended). For every record whose four fields contain no newline character, the
  serialised text, split at newlines, is the name line, the id line and the department
  line in this order, followed by a notes line if and only if the notes are not empty;
  and parsing the text gives back the record.
\<close>

theorem serialize_then_parse:
  assumes "10 \<notin> set (employee_name f)" and "10 \<notin> set (employee_id f)"
    and "10 \<notin> set (department f)" and "10 \<notin> set (additional_info f)"
  shows "split_on 10 (collect_employee_data f)
         = [name_label @ employee_name f, id_label @ employee_id f,
            department_label @ department f]
           @ (if additional_info f = [] then [] else [notes_label @ additional_info f])
         \<and> parse_employee_data (collect_employee_data f) = Some f"
proof
  show l: "split_on 10 (collect_employee_data f)
         = [name_label @ employee_name f, id_label @ employee_id f,
            department_label @ department f]
           @ (if additional_info f = [] then [] else [notes_label @ additional_info f])"
    using assms by (rule collect_lines)
  show "parse_employee_data (collect_employee_data f) = Some f"
    by (cases "additional_info f = []")
       (simp_all add: parse_employee_data_def l parse_fields_def strip_label_append)
qed

theorem serialize_then_parse_witness:
  "10 \<notin> set [1605, 1581, 1605, 1583, 32, 1593, 1604, 1610::nat]
   \<and> 10 \<notin> set [49, 50, 51, 52, 53::nat]
   \<and> 10 \<notin> set [1578, 1602, 1606, 1610, 1577, 32, 1575, 1604, 1605, 1593, 1604, 1608, 1605,
                  1575, 1578::nat]
   \<and> 10 \<notin> set ([]::nat list)
   \<and> split_on 10 (collect_employee_data
        \<lparr>employee_name = [1605, 1581, 1605, 1583, 32, 1593, 1604, 1610],
         employee_id = [49, 50, 51, 52, 53],
         department = [1578, 1602, 1606, 1610, 1577, 32, 1575, 1604, 1605, 1593, 1604, 1608,
                       1605, 1575, 1578],
         additional_info = []\<rparr>)
     = [name_label @ [1605, 1581, 1605, 1583, 32, 1593, 1604, 1610],
        id_label @ [49, 50, 51, 52, 53],
        department_label @ [1578, 1602, 1606, 1610, 1577, 32, 1575, 1604, 1605, 1593, 1604,
                            1608, 1605, 1575, 1578]]
   \<and> parse_employee_data (collect_employee_data
        \<lparr>employee_name = [1605, 1581, 1605, 1583, 32, 1593, 1604, 1610],
         employee_id = [49, 50, 51, 52, 53],
         department = [1578, 1602, 1606, 1610, 1577, 32, 1575, 1604, 1605, 1593, 1604, 1608,
                       1605, 1575, 1578],
         additional_info = []\<rparr>)
     = Some \<lparr>employee_name = [1605, 1581, 1605, 1583, 32, 1593, 1604, 1610],
         employee_id = [49, 50, 51, 52, 53],
         department = [1578, 1602, 1606, 1610, 1577, 32, 1575, 1604, 1605, 1593, 1604, 1608,
                       1605, 1575, 1578],
         additional_info = []\<rparr>"
  using serialize_then_parse
    [of "\<lparr>employee_name = [1605, 1581, 1605, 1583, 32, 1593, 1604, 1610],
         employee_id = [49, 50, 51, 52, 53],
         department = [1578, 1602, 1606, 1610, 1577, 32, 1575, 1604, 1605, 1593, 1604, 1608,
                       1605, 1575, 1578],
         additional_info = []\<rparr>"]
  by simp

text \<open>
  The statement fails for valid records in general: a name with an embedded newline
  passes \<open>validate_inputs\<close>, and with empty notes the serialised text then has four
  lines and does not parse.
\<close>

theorem serialize_embedded_newline:
  "validate_inputs \<lparr>employee_name = [65, 10, 66], employee_id = [49, 50, 51, 52, 53],
                     department = [73, 84], additional_info = []\<rparr> = Inr ()
   \<and> length (split_on 10 (collect_employee_data
        \<lparr>employee_name = [65, 10, 66], employee_id = [49, 50, 51, 52, 53],
         department = [73, 84], additional_info = []\<rparr>)) = 4
   \<and> parse_employee_data (collect_employee_data
        \<lparr>employee_name = [65, 10, 66], employee_id = [49, 50, 51, 52, 53],
         department = [73, 84], additional_info = []\<rparr>) = None"
  by (simp add: validate_inputs_def strip_def py_isspace_def match_digits_def re_digit_def
        nd_run_starts_def at_dollar_def collect_employee_data_def name_label_def id_label_def
        department_label_def parse_employee_data_def strip_label_def notes_label_def)

section \<open>The key file\<close>

text \<open>
  C5 (amended). When the key file does not exist, 32 random bytes are drawn and a write of
  them is attempted; if the write succeeds they are the key and the content of the file;
  if it fails, a second draw of 32 bytes is the key in memory. When the key file exists
  and reading it fails, 32 random bytes are drawn and used, and no write is attempted.
  In each of these cases the key in memory has 32 bytes and nothing is raised.
\<close>

theorem load_or_generate_key_fallback:
  assumes "key_file fs = None \<or> key_read_fails fs"
  shows "length (loaded_key (load_or_generate_key fs r)) = 32 \<and>
         (if key_file fs \<noteq> None then
            loaded_key (load_or_generate_key fs r) = first_draw r \<and>
            key_log (load_or_generate_key fs r) = [KeyErrorPrinted, KeyGenerated (first_draw r)] \<and>
            fs_after (load_or_generate_key fs r) = fs
          else if key_write_fault fs = NoFault then
            loaded_key (load_or_generate_key fs r) = first_draw r \<and>
            key_log (load_or_generate_key fs r)
              = [KeyGenerated (first_draw r), KeyWriteAttempt (first_draw r)] \<and>
            key_file (fs_after (load_or_generate_key fs r)) = Some (first_draw r)
          else
            loaded_key (load_or_generate_key fs r) = second_draw r \<and>
            key_log (load_or_generate_key fs r)
              = [KeyGenerated (first_draw r), KeyWriteAttempt (first_draw r), KeyErrorPrinted,
                 KeyGenerated (second_draw r)])"
  using assms
  by (auto simp add: load_or_generate_key_def get_random_bytes_def first_draw_def
        second_draw_def Let_def split: option.splits write_fault.splits)

theorem load_or_generate_key_fallback_witness:
  "(key_file (fresh_disk\<lparr>key_write_fault := OpenFails\<rparr>) = None
      \<or> key_read_fails (fresh_disk\<lparr>key_write_fault := OpenFails\<rparr>))
   \<and> length (loaded_key (load_or_generate_key (fresh_disk\<lparr>key_write_fault := OpenFails\<rparr>)
                counting_tape)) = 32
   \<and> loaded_key (load_or_generate_key (fresh_disk\<lparr>key_write_fault := OpenFails\<rparr>)
         counting_tape) = second_draw counting_tape"
  using load_or_generate_key_fallback [of "fresh_disk\<lparr>key_write_fault := OpenFails\<rparr>" counting_tape]
  by (simp add: fresh_disk_def second_draw_def get_random_bytes_def)

text \<open>
  The claim as stated fails twice: after a failed read the log has no write attempt, and
  after a failed write the key in memory (first byte 32 on the counting tape) is not the
  key whose write was attempted (first byte 0).
\<close>

theorem key_fallback_differs:
  "key_log (load_or_generate_key (fresh_disk\<lparr>key_file := Some [], key_read_fails := True\<rparr>)
      counting_tape)
     = [KeyErrorPrinted, KeyGenerated (first_draw counting_tape)]
   \<and> key_log (load_or_generate_key (fresh_disk\<lparr>key_write_fault := OpenFails\<rparr>) counting_tape)
     = [KeyGenerated (first_draw counting_tape), KeyWriteAttempt (first_draw counting_tape),
        KeyErrorPrinted, KeyGenerated (second_draw counting_tape)]
   \<and> hd (first_draw counting_tape) = 0
   \<and> hd (loaded_key (load_or_generate_key (fresh_disk\<lparr>key_write_fault := OpenFails\<rparr>)
            counting_tape)) = 32"
  by (simp add: load_or_generate_key_def fresh_disk_def get_random_bytes_def first_draw_def
        second_draw_def counting_tape_def Let_def upt_conv_Cons)

lemma load_existing_key:
  "key_file fs = Some content \<Longrightarrow> \<not> key_read_fails fs \<Longrightarrow>
     loaded_key (load_or_generate_key fs r) = content"
  by (simp add: load_or_generate_key_def)

text \<open>
  C6. The key is meant to have 32 bytes, and a key drawn by the program has. A key file
  that exists and is readable is loaded whole, whatever its length: the empty file that a
  failed write leaves behind gives an empty key on the next start, a 16-byte file gives a
  16-byte key, and \<open>encrypt_data\<close> then fails or works with a shorter key.
\<close>

theorem short_key_file_is_loaded:
  "key_file (fs_after (load_or_generate_key (fresh_disk\<lparr>key_write_fault := WriteFails 0\<rparr>)
                 counting_tape)) = Some []
   \<and> loaded_key (load_or_generate_key (fresh_disk\<lparr>key_file := Some []\<rparr>) counting_tape) = []
   \<and> loaded_key (load_or_generate_key (fresh_disk\<lparr>key_file := Some (replicate 16 7)\<rparr>)
        counting_tape) = replicate 16 7
   \<and> fst (encrypt_data xor_cipher [] counting_tape [72, 105]) = Inl ValueError"
  by (simp add: load_or_generate_key_def fresh_disk_def get_random_bytes_def Let_def
        encrypt_data_def)

section \<open>Settings: saving\<close>

lemma map_of_dict_set: "map_of (dict_set d k v) = (map_of d)(k \<mapsto> v)"
  by (induction d k v rule: dict_set.induct) auto

lemma map_of_dict_update: "map_of (dict_update d other) = map_of d ++ map_of (rev other)"
  unfolding dict_update_def
proof (induction other arbitrary: d)
  case Nil
  show ?case by simp
next
  case (Cons kv other)
  show ?case
    by (cases kv)
       (auto simp add: Cons.IH map_of_dict_set map_add_def fun_eq_iff split: option.splits)
qed

lemma dict_get_dict_update:
  "dict_get (dict_update d other) k =
     (case dict_get (dict_update [] other) k of None \<Rightarrow> dict_get d k | Some v \<Rightarrow> Some v)"
  unfolding dict_get_def by (simp add: map_of_dict_update map_add_def)

lemma validate_path_keeps:
  "settings_file (snd (validate_path fs p)) = settings_file fs"
  "settings_write_fault (snd (validate_path fs p)) = settings_write_fault fs"
  "key_file (snd (validate_path fs p)) = key_file fs"
  by (simp_all add: validate_path_def Let_def split: pyval.splits write_fault.splits)

lemma save_settings_file:
  "settings_file (save_settings fs s) =
     (case settings_write_fault fs of
        NoFault \<Rightarrow> Content (PDict s)
      | OpenFails \<Rightarrow> settings_file fs
      | WriteFails n \<Rightarrow> Malformed)"
  by (simp add: save_settings_def split: write_fault.splits)

text \<open>
  C7 (amended). \<open>save_settings_changes\<close> checks the save path and the two colours first.
  If a check fails it shows a rejection, the settings in memory are unchanged and the
  settings file is not written. If all pass, the settings in memory are updated, then
  written, and the success message is shown whatever the write did: after a failed write
  the file is as before (or truncated) while the settings in memory are the new ones.
\<close>

theorem save_settings_changes_validate_then_update:
  "(if fst (validate_path fs (PStr (save_path_field ui))) \<and> validate_color (qr_color_picker ui)
       \<and> validate_color (qr_bg_color_picker ui)
    then shown (save_settings_changes fs s ui) = SettingsSaved
       \<and> settings_after (save_settings_changes fs s ui)
           = dict_update s
               [(ascii ''save_path'', PStr (save_path_field ui)),
                (ascii ''auto_save'', PBool (auto_save_switch ui)),
                (ascii ''image_quality'', PStr (image_quality_dropdown ui)),
                (ascii ''qr_size'', PStr (qr_size_dropdown ui)),
                (ascii ''qr_color'', PStr (qr_color_picker ui)),
                (ascii ''qr_bg_color'', PStr (qr_bg_color_picker ui)),
                (ascii ''language'', PStr (language_dropdown ui))]
       \<and> settings_file (disk_after (save_settings_changes fs s ui))
           = (case settings_write_fault fs of
                NoFault \<Rightarrow> Content (PDict (settings_after (save_settings_changes fs s ui)))
              | OpenFails \<Rightarrow> settings_file fs
              | WriteFails n \<Rightarrow> Malformed)
    else shown (save_settings_changes fs s ui) \<noteq> SettingsSaved
       \<and> settings_after (save_settings_changes fs s ui) = s
       \<and> settings_file (disk_after (save_settings_changes fs s ui)) = settings_file fs)"
proof -
  obtain ok fs1 where v: "validate_path fs (PStr (save_path_field ui)) = (ok, fs1)"
    by (cases "validate_path fs (PStr (save_path_field ui))")
  have k: "settings_file fs1 = settings_file fs" "settings_write_fault fs1 = settings_write_fault fs"
    using validate_path_keeps [of fs "PStr (save_path_field ui)"] v by simp_all
  show ?thesis
    by (simp add: save_settings_changes_def v k save_settings_file Let_def
          split: write_fault.splits)
qed

text \<open>
  The claim as stated fails when the write fails: the success message is shown, the
  settings in memory have the new colour, and nothing reached the file.
\<close>

theorem save_settings_changes_write_failure:
  "shown (save_settings_changes (fresh_disk\<lparr>settings_write_fault := OpenFails\<rparr>)
            (setup_app_settings (ascii ''/home/u'')) sample_ui) = SettingsSaved
   \<and> dict_get (settings_after
          (save_settings_changes (fresh_disk\<lparr>settings_write_fault := OpenFails\<rparr>)
            (setup_app_settings (ascii ''/home/u'')) sample_ui)) (ascii ''qr_color'')
       = Some (PStr (ascii ''#112233''))
   \<and> dict_get (setup_app_settings (ascii ''/home/u'')) (ascii ''qr_color'')
       = Some (PStr (ascii ''#000000''))
   \<and> settings_file (disk_after
          (save_settings_changes (fresh_disk\<lparr>settings_write_fault := OpenFails\<rparr>)
            (setup_app_settings (ascii ''/home/u'')) sample_ui)) = Absent"
  by (simp add: save_settings_changes_def validate_path_def isabs_def path_join_def
        fresh_disk_def sample_ui_def validate_color_def hex_group_def hex_digit_def
        at_dollar_def setup_app_settings_def dict_update_def dict_get_def save_settings_def
        ascii_def Let_def)

section \<open>Settings: loading\<close>

lemma map_of_rev_distinct: "distinct (map fst xs) \<Longrightarrow> map_of (rev xs) = map_of xs"
proof (induction xs)
  case Nil
  show ?case by simp
next
  case (Cons kv xs)
  then have "map_of xs (fst kv) = None" by (simp add: map_of_eq_None_iff)
  then show ?case using Cons
    by (cases kv) (auto simp add: map_add_def fun_eq_iff split: option.splits)
qed

lemma keys_dict_set:
  "map fst (dict_set d k v) = (if k \<in> set (map fst d) then map fst d else map fst d @ [k])"
  by (induction d k v rule: dict_set.induct) auto

lemma distinct_dict_set: "distinct (map fst d) \<Longrightarrow> distinct (map fst (dict_set d k v))"
  by (simp add: keys_dict_set)

lemma distinct_dict_update: "distinct (map fst d) \<Longrightarrow> distinct (map fst (dict_update d other))"
  unfolding dict_update_def
  by (induction other arbitrary: d) (simp_all add: distinct_dict_set)

lemma dict_get_update_loaded:
  "dict_get (dict_update s (dict_update [] pairs)) k =
     (case dict_get (dict_update [] pairs) k of None \<Rightarrow> dict_get s k | Some v \<Rightarrow> Some v)"
proof -
  have "distinct (map fst (dict_update [] pairs))" by (rule distinct_dict_update) simp
  then have "map_of (rev (dict_update [] pairs)) = map_of (dict_update [] pairs)"
    by (rule map_of_rev_distinct)
  then show ?thesis unfolding dict_get_def by (simp add: map_of_dict_update map_add_def)
qed

text \<open>
  C8 (amended). When the settings file holds a JSON object, \<open>load_settings\<close> applies it
  as a whole or not at all: if it has a \<open>save_path\<close> that passes \<open>validate_path\<close>, every
  key of the file overrides or extends the defaults (keys the program does not know
  included) and the keys missing from the file keep their defaults; if \<open>save_path\<close> is
  missing or fails the probe, all settings stay as they were.
\<close>

theorem load_settings_all_or_nothing:
  assumes "settings_file fs = Content (PDict pairs)"
  shows "\<exists>s' fs'. load_settings fs s = Inr (s', fs') \<and>
           (case dict_get (dict_update [] pairs) (ascii ''save_path'') of
              None \<Rightarrow> s' = s
            | Some p \<Rightarrow>
                if fst (validate_path fs p)
                then (\<forall>k. dict_get s' k =
                        (case dict_get (dict_update [] pairs) k of
                           None \<Rightarrow> dict_get s k
                         | Some v \<Rightarrow> Some v))
                else s' = s)"
proof (cases "dict_get (dict_update [] pairs) (ascii ''save_path'')")
  case None
  then show ?thesis using assms by (simp add: load_settings_def Let_def)
next
  case (Some p)
  obtain ok fs1 where v: "validate_path fs p = (ok, fs1)"
    by (cases "validate_path fs p")
  note u = dict_get_update_loaded [of s pairs]
  show ?thesis
  proof (cases ok)
    case True
    then have "load_settings fs s = Inr (dict_update s (dict_update [] pairs), fs1)"
      using assms Some v by (simp add: load_settings_def Let_def)
    then show ?thesis using Some v True u by simp
  next
    case False
    then have "load_settings fs s = Inr (s, fs1)"
      using assms Some v by (simp add: load_settings_def Let_def)
    then show ?thesis using Some v False by simp
  qed
qed

theorem load_settings_all_or_nothing_witness:
  "settings_file (fresh_disk\<lparr>settings_file := Content sample_file\<rparr>) = Content sample_file
   \<and> (\<exists>s' fs'. load_settings (fresh_disk\<lparr>settings_file := Content sample_file\<rparr>)
                 (setup_app_settings (ascii ''/home/u'')) = Inr (s', fs')
        \<and> dict_get s' (ascii ''qr_color'') = Some (PStr (ascii ''#112233''))
        \<and> dict_get s' (ascii ''language'') = Some (PStr (ascii ''ar'')))"
proof -
  let ?fs = "fresh_disk\<lparr>settings_file := Content sample_file\<rparr>"
  let ?s = "setup_app_settings (ascii ''/home/u'')"
  let ?pairs = "[(ascii ''save_path'', PStr (ascii ''/data/qr'')),
            (ascii ''qr_color'', PStr (ascii ''#112233'')),
            (ascii ''theme'', PStr (ascii ''dark''))]"
  have f: "settings_file ?fs = Content (PDict ?pairs)" by (simp add: sample_file_def)
  have p: "dict_get (dict_update [] ?pairs) (ascii ''save_path'') = Some (PStr (ascii ''/data/qr''))"
    by (simp add: dict_update_def dict_get_def ascii_def)
  have ok: "fst (validate_path ?fs (PStr (ascii ''/data/qr'')))"
    by (simp add: validate_path_def isabs_def fresh_disk_def ascii_def Let_def)
  from load_settings_all_or_nothing [OF f, of ?s]
  obtain s' fs' where l: "load_settings ?fs ?s = Inr (s', fs')"
    and g: "\<And>k. dict_get s' k =
              (case dict_get (dict_update [] ?pairs) k of None \<Rightarrow> dict_get ?s k | Some v \<Rightarrow> Some v)"
    using p ok by auto
  have "dict_get s' (ascii ''qr_color'') = Some (PStr (ascii ''#112233''))"
    unfolding g by (simp add: dict_update_def dict_get_def ascii_def)
  moreover have "dict_get s' (ascii ''language'') = Some (PStr (ascii ''ar''))"
    unfolding g by (simp add: dict_update_def dict_get_def ascii_def setup_app_settings_def)
  ultimately show ?thesis using l by (simp add: sample_file_def)
qed

text \<open>
  The claim as stated fails twice: with a \<open>save_path\<close> that fails the probe the colour of
  the file does not apply, and with a good \<open>save_path\<close> an unknown key is kept.
\<close>

theorem load_settings_discards_or_keeps_all:
  "dict_get (fst (projr (load_settings (fresh_disk\<lparr>settings_file := Content sample_file_relative\<rparr>)
                           (setup_app_settings (ascii ''/home/u'')))))
      (ascii ''qr_color'') = Some (PStr (ascii ''#000000''))
   \<and> dict_get (fst (projr (load_settings (fresh_disk\<lparr>settings_file := Content sample_file\<rparr>)
                           (setup_app_settings (ascii ''/home/u'')))))
      (ascii ''theme'') = Some (PStr (ascii ''dark''))"
  by (simp add: load_settings_def sample_file_relative_def sample_file_def fresh_disk_def
        validate_path_def isabs_def path_join_def setup_app_settings_def dict_update_def
        dict_get_def ascii_def Let_def)

section \<open>The QR image: colours\<close>

text \<open>
  C10 (amended). For every colour pair in which either colour fails the hexadecimal
  pattern of \<open>validate_color\<close>, \<open>create_qr_code_image\<close> neither rejects nor replaces the
  pair: it reads the colours from the settings (a default only for a key that is absent)
  and hands them to the imaging library as they are. It returns the image exactly when
  the encoder accepts the text, the library accepts the pair, the quality lookup succeeds
  and the PNG is written, and then the image is the one rendered with that pair; it fails
  exactly when one of these four steps fails, with the error of that step.
\<close>

theorem create_qr_code_image_unvalidated_colours:
  assumes "\<not> valid_color_value (fill_color s) \<or> \<not> valid_color_value (back_color s)"
  shows "(create_qr_code_image lib s data n = Inr t \<longleftrightarrow>
            (\<exists>qr img quality png.
               qr_make lib data = Inr qr \<and>
               make_image lib qr (fill_color s) (back_color s) = Inr img \<and>
               get_image_quality s = Inr quality \<and>
               save_png lib img quality = Inr png \<and>
               t = map unat (b64encode png)))
       \<and> (create_qr_code_image lib s data n = Inl e \<longleftrightarrow>
            qr_make lib data = Inl e \<or>
            (\<exists>qr. qr_make lib data = Inr qr \<and>
               (make_image lib qr (fill_color s) (back_color s) = Inl e \<or>
                (\<exists>img. make_image lib qr (fill_color s) (back_color s) = Inr img \<and>
                   (get_image_quality s = Inl e \<or>
                    (\<exists>quality. get_image_quality s = Inr quality \<and>
                       save_png lib img quality = Inl e))))))
       \<and> fill_color s = (case dict_get s (ascii ''qr_color'') of
                            None \<Rightarrow> PStr (ascii ''#000000'') | Some v \<Rightarrow> v)
       \<and> back_color s = (case dict_get s (ascii ''qr_bg_color'') of
                            None \<Rightarrow> PStr (ascii ''#FFFFFF'') | Some v \<Rightarrow> v)"
proof (intro conjI)
  show "create_qr_code_image lib s data n = Inr t \<longleftrightarrow>
            (\<exists>qr img quality png.
               qr_make lib data = Inr qr \<and>
               make_image lib qr (fill_color s) (back_color s) = Inr img \<and>
               get_image_quality s = Inr quality \<and>
               save_png lib img quality = Inr png \<and>
               t = map unat (b64encode png))"
    by (auto simp add: create_qr_code_image_def b64encode_text split: sum.splits)
  show "create_qr_code_image lib s data n = Inl e \<longleftrightarrow>
            qr_make lib data = Inl e \<or>
            (\<exists>qr. qr_make lib data = Inr qr \<and>
               (make_image lib qr (fill_color s) (back_color s) = Inl e \<or>
                (\<exists>img. make_image lib qr (fill_color s) (back_color s) = Inr img \<and>
                   (get_image_quality s = Inl e \<or>
                    (\<exists>quality. get_image_quality s = Inr quality \<and>
                       save_png lib img quality = Inl e)))))"
    by (auto simp add: create_qr_code_image_def b64encode_text split: sum.splits)
  show "fill_color s = (case dict_get s (ascii ''qr_color'') of
                            None \<Rightarrow> PStr (ascii ''#000000'') | Some v \<Rightarrow> v)"
    by (simp add: fill_color_def dict_get_default_def)
  show "back_color s = (case dict_get s (ascii ''qr_bg_color'') of
                            None \<Rightarrow> PStr (ascii ''#FFFFFF'') | Some v \<Rightarrow> v)"
    by (simp add: back_color_def dict_get_default_def)
qed

theorem create_qr_code_image_unvalidated_colours_witness:
  "\<not> valid_color_value (fill_color red_settings)
   \<and> create_qr_code_image pillow_like red_settings [97, 98] 300 = Inr [89, 87, 73, 61]
   \<and> \<not> valid_color_value
         (fill_color (dict_set red_settings (ascii ''image_quality'') (PList [])))
   \<and> create_qr_code_image pillow_like
         (dict_set red_settings (ascii ''image_quality'') (PList [])) [97, 98] 300
       = Inl TypeError"
proof -
  let ?img = "([97, 98], PStr (ascii ''red''), PStr (ascii ''#FFFFFF''))"
  let ?s = "dict_set red_settings (ascii ''image_quality'') (PList [])"
  have r: "\<not> validate_color (ascii ''red'')"
    by (simp add: validate_color_def ascii_def)
  have f: "fill_color red_settings = PStr (ascii ''red'')"
          "back_color red_settings = PStr (ascii ''#FFFFFF'')"
    by (simp_all add: red_settings_def setup_app_settings_def fill_color_def back_color_def
          dict_get_default_def dict_get_def ascii_def)
  have f': "fill_color ?s = PStr (ascii ''red'')" "back_color ?s = PStr (ascii ''#FFFFFF'')"
    by (simp_all add: red_settings_def setup_app_settings_def fill_color_def back_color_def
          dict_get_default_def dict_get_def ascii_def)
  have h: "\<not> valid_color_value (fill_color red_settings)
             \<or> \<not> valid_color_value (back_color red_settings)"
    by (simp add: f valid_color_value_def r)
  have h': "\<not> valid_color_value (fill_color ?s) \<or> \<not> valid_color_value (back_color ?s)"
    by (simp add: f' valid_color_value_def r)
  have q: "qr_make pillow_like [97, 98] = Inr [97, 98]" by (simp add: pillow_like_def)
  have m: "make_image pillow_like [97, 98] (PStr (ascii ''red'')) (PStr (ascii ''#FFFFFF''))
           = Inr ?img"
    by (simp add: pillow_like_def pillow_color_def hex_digit_def ascii_def)
  have g: "get_image_quality red_settings = Inr 90"
    by (simp add: get_image_quality_def lookup_label_def red_settings_def
          setup_app_settings_def dict_get_def quality_high_def quality_very_high_def
          quality_medium_def quality_low_def ascii_def)
  have g': "get_image_quality ?s = Inl TypeError"
    by (simp add: get_image_quality_def lookup_label_def red_settings_def
          setup_app_settings_def dict_get_def ascii_def)
  have s: "save_png pillow_like ?img 90 = Inr [97, 98]"
    by (simp add: pillow_like_def)
  have b: "map unat (b64encode [97, 98]) = [89, 87, 73, 61]"
    by (simp add: b64_char_def sextet0_def sextet1_def sextet2_def)
  have "create_qr_code_image pillow_like red_settings [97, 98] 300 = Inr [89, 87, 73, 61]"
    using create_qr_code_image_unvalidated_colours
            [OF h, of pillow_like "[97, 98]" 300 "[89, 87, 73, 61]"]
    by (simp add: q f m g s b del: b64encode.simps)
  moreover have "create_qr_code_image pillow_like ?s [97, 98] 300 = Inl TypeError"
    using create_qr_code_image_unvalidated_colours
            [OF h', where lib = pillow_like and data = "[97, 98]" and n = 300
               and e = TypeError]
    by (simp add: q f' m g')
  moreover have "\<not> valid_color_value (fill_color red_settings)"
    by (simp add: f valid_color_value_def r)
  moreover have "\<not> valid_color_value (fill_color ?s)"
    by (simp add: f' valid_color_value_def r)
  ultimately show ?thesis by simp
qed

text \<open>
  The claim as stated fails with a library that knows colour names: \<open>red\<close> is not a
  hexadecimal colour, and the image is rendered with it.
\<close>

theorem create_qr_code_image_named_colour:
  "create_qr_code_image pillow_like red_settings [97, 98] 300 = Inr [89, 87, 73, 61]
   \<and> fill_color red_settings = PStr (ascii ''red'')
   \<and> \<not> validate_color (ascii ''red'')"
  by (simp add: create_qr_code_image_def pillow_like_def pillow_color_def red_settings_def
        setup_app_settings_def fill_color_def back_color_def dict_get_default_def dict_get_def
        get_image_quality_def lookup_label_def quality_high_def quality_very_high_def
        quality_medium_def quality_low_def hex_digit_def validate_color_def
        ascii_def b64_char_def sextet0_def sextet1_def sextet2_def sextet3_def
        cons_char_def)

section \<open>Saving the image\<close>

text \<open>
  \<open>save_qr_code\<close> decodes leniently: a newline after the base64 text is skipped. With the
  text that \<open>create_qr_code_image\<close> returned it writes the PNG bytes. An integer as
  \<open>save_path\<close> is reported as a folder error unless it is an open file descriptor.
\<close>

lemma b64decode_str_trailing_newline:
  "b64decode_str [89, 87, 73, 61, 10] = Inr [97, 98]
   \<and> b64decode_text [89, 87, 73, 61, 10] = Inl ValueError"
  by (simp add: b64decode_str_def b64decode_text_def b64_val_def octet0_def octet1_def)

lemma save_qr_code_writes_image:
  assumes "dict_get (app_settings app) (ascii ''save_path'') = Some (PStr p)"
    and "path_exists (disk app) p \<or> can_mkdir (disk app) p"
    and "qr_image_src app = map unat (b64encode png)"
    and "write_fault_at (disk app) (path_join p (ascii ''qr_code_'' @ employee_id f @ ascii ''.png'')) = NoFault"
  shows "\<exists>app'. save_qr_code app f
           = Inr (app', [Saved (path_join p (ascii ''qr_code_'' @ employee_id f @ ascii ''.png''))])
         \<and> files (disk app') (path_join p (ascii ''qr_code_'' @ employee_id f @ ascii ''.png''))
             = Some png"
  using assms
  by (auto simp add: save_qr_code_def exists_value_def b64decode_str_encode Let_def)

lemma save_qr_code_descriptor:
  assumes "dict_get (app_settings app) (ascii ''save_path'') = Some (PInt 7)"
  shows "save_qr_code app f
           = (if open_fd (disk app) 7 then Inl TypeError else Inr (app, [FolderError]))"
  using assms by (simp add: save_qr_code_def exists_value_def)

section \<open>Validation and the stages\<close>

lemma strip_Nil: "strip [] = []"
  by (simp add: strip_def)

lemma match_digits_Nil: "\<not> match_digits []"
  by (simp add: match_digits_def)

lemma validate_inputs_rules:
  "validate_inputs f =
     (if length (strip (employee_name f)) < 2 then Inl InvalidName
      else if \<not> match_digits (employee_id f) then Inl InvalidId
      else if length (strip (department f)) < 2 then Inl InvalidDepartment
      else Inr ())"
  by (auto simp add: validate_inputs_def strip_Nil match_digits_Nil)

lemma match_digits_without_newline:
  assumes "10 \<notin> set s"
  shows "match_digits s \<longleftrightarrow> s \<noteq> [] \<and> list_all re_digit s"
proof -
  have "dropWhile re_digit s \<noteq> [10]"
    using assms set_dropWhileD [of 10 re_digit s] by auto
  then have "match_digits s \<longleftrightarrow> takeWhile re_digit s \<noteq> [] \<and> dropWhile re_digit s = []"
    by (simp add: match_digits_def at_dollar_def)
  also have "\<dots> \<longleftrightarrow> s \<noteq> [] \<and> list_all re_digit s"
    by (auto simp add: dropWhile_eq_Nil_conv list_all_iff takeWhile_eq_all_conv [THEN iffD2])
  finally show ?thesis .
qed

lemma generate_qr_code_invalid:
  "validate_inputs f = Inl v \<Longrightarrow> generate_qr_code aes lib app f = (app, [ValidationMessage v])"
  by (simp add: generate_qr_code_def)

lemma generate_qr_code_valid:
  assumes "validate_inputs f = Inr ()"
  shows "\<exists>app' events. generate_qr_code aes lib app f
           = (app', Loading True # Ran Collect # Ran Encrypt # events)"
  using assms
  by (auto simp add: generate_qr_code_def generate_stages_def Let_def
        split: prod.splits sum.splits option.splits)

lemma validate_inputs_letter_in_id:
  "validate_inputs \<lparr>employee_name = [65, 108, 105], employee_id = [49, 50, 65, 52, 53],
                     department = [73, 84], additional_info = []\<rparr> = Inl InvalidId"
  by (simp add: validate_inputs_def strip_def py_isspace_def match_digits_def re_digit_def
        nd_run_starts_def at_dollar_def)

text \<open>
  C3. The three rules are applied in order and a form that fails one runs no stage, as
  the lemmas above say. The id rule, though, is meant to accept digits only, and the id
  \<open>12\<close> followed by a newline passes it: \<open>$\<close> matches before a final newline.
\<close>

theorem validate_inputs_trailing_newline:
  "validate_inputs \<lparr>employee_name = [65, 108, 105], employee_id = [49, 50, 10],
                     department = [73, 84], additional_info = []\<rparr> = Inr ()
   \<and> \<not> list_all re_digit [49, 50, 10] \<and> py_isspace (last [49, 50, 10])"
  by (simp add: validate_inputs_def strip_def py_isspace_def match_digits_def re_digit_def
        nd_run_starts_def at_dollar_def)

end
